theory Spec2Isabelle
  imports
    Complex_Main
    "HOL-Library.Char_ord"
    "HOL-Library.List_Lexorder"
    "HOL-Library.Multiset"
begin

chapter \<open>The model\<close>

text \<open>
  A Go \<^verbatim>\<open>string\<close> is an immutable sequence of bytes, and \<^verbatim>\<open>len\<close>, indexing and
  slicing count bytes.  It is modelled by \<^typ>\<open>string\<close>, a list of 8-bit characters.
\<close>

section \<open>Regular expressions (package regexp)\<close>

text \<open>
  The only pattern of the repository is \<^verbatim>\<open>^entire/[0-9a-fA-F]{7,}$\<close>.  It is built from
  literals, a bracket expression and a counted repetition; the syntax tree below has these
  and the operators their derivatives need.  The pattern mentions ASCII characters only, so
  matching bytes and matching UTF-8 code points agree: a byte outside ASCII belongs to no
  literal and to no class of the pattern.
\<close>

datatype regexp =
    Empty
  | Eps
  | Class "(char \<times> char) list"
  | Alt regexp regexp
  | Cat regexp regexp
  | Star regexp

text \<open>A bracket expression is a list of inclusive ranges.\<close>

fun in_class :: "(char \<times> char) list \<Rightarrow> char \<Rightarrow> bool" where
  "in_class [] c = False"
| "in_class ((lo, hi) # rs) c = ((lo \<le> c \<and> c \<le> hi) \<or> in_class rs c)"

fun Literal :: "string \<Rightarrow> regexp" where
  "Literal [] = Eps"
| "Literal (c # cs) = Cat (Class [(c, c)]) (Literal cs)"

text \<open>The counted repetition \<^verbatim>\<open>r{n,}\<close>: \<open>n\<close> copies of \<open>r\<close>, then any number more.\<close>

fun AtLeast :: "nat \<Rightarrow> regexp \<Rightarrow> regexp" where
  "AtLeast 0 r = Star r"
| "AtLeast (Suc n) r = Cat r (AtLeast n r)"

text \<open>What it means for a string to match: the language of an expression.\<close>

definition lang_cat :: "string set \<Rightarrow> string set \<Rightarrow> string set" where
  "lang_cat A B = {u @ v | u v. u \<in> A \<and> v \<in> B}"

inductive_set lang_star :: "string set \<Rightarrow> string set" for A :: "string set" where
  star_empty: "[] \<in> lang_star A"
| star_more: "u \<in> A \<Longrightarrow> v \<in> lang_star A \<Longrightarrow> u @ v \<in> lang_star A"

fun lang :: "regexp \<Rightarrow> string set" where
  "lang Empty = {}"
| "lang Eps = {[]}"
| "lang (Class rs) = {[c] | c. in_class rs c}"
| "lang (Alt r s) = lang r \<union> lang s"
| "lang (Cat r s) = lang_cat (lang r) (lang s)"
| "lang (Star r) = lang_star (lang r)"

text \<open>
  The matcher consumes the subject one byte at a time, replacing the expression by its
  derivative.  The pattern of the repository is anchored at both ends (\<^verbatim>\<open>^\<close> ... \<^verbatim>\<open>$\<close>,
  without the multi-line flag), so \<^verbatim>\<open>MatchString\<close>, which in general looks for a matching
  substring, has to match the whole subject.
\<close>

fun nullable :: "regexp \<Rightarrow> bool" where
  "nullable Empty = False"
| "nullable Eps = True"
| "nullable (Class rs) = False"
| "nullable (Alt r s) = (nullable r \<or> nullable s)"
| "nullable (Cat r s) = (nullable r \<and> nullable s)"
| "nullable (Star r) = True"

fun deriv :: "char \<Rightarrow> regexp \<Rightarrow> regexp" where
  "deriv c Empty = Empty"
| "deriv c Eps = Empty"
| "deriv c (Class rs) = (if in_class rs c then Eps else Empty)"
| "deriv c (Alt r s) = Alt (deriv c r) (deriv c s)"
| "deriv c (Cat r s) =
     (if nullable r then Alt (Cat (deriv c r) s) (deriv c s) else Cat (deriv c r) s)"
| "deriv c (Star r) = Cat (deriv c r) (Star r)"

fun MatchString :: "regexp \<Rightarrow> string \<Rightarrow> bool" where
  "MatchString r [] = nullable r"
| "MatchString r (c # cs) = MatchString (deriv c r) cs"

section \<open>Strings and UTF-8 (packages strings, unicode/utf8, unicode)\<close>

text \<open>
  The standard library functions the repository calls, after their Go sources.  A rune is a
  code point; only non-negative ones occur.  \<open>byte c\<close> is the numeric value of a byte and
  \<open>char_of_byte\<close> builds a byte from its value.
\<close>

type_synonym rune = nat

definition byte :: "char \<Rightarrow> nat" where
  "byte c = of_char c"

definition char_of_byte :: "nat \<Rightarrow> char" where
  "char_of_byte n =
     Char (odd n) (odd (n div 2)) (odd (n div 4)) (odd (n div 8))
          (odd (n div 16)) (odd (n div 32)) (odd (n div 64)) (odd (n div 128))"

definition RuneError :: rune where
  "RuneError = 0xFFFD"

definition RuneSelf :: nat where
  "RuneSelf = 0x80"

text \<open>\<^verbatim>\<open>strings.HasPrefix\<close>, \<^verbatim>\<open>TrimPrefix\<close>, \<^verbatim>\<open>HasSuffix\<close>, \<^verbatim>\<open>TrimSuffix\<close>.\<close>

definition HasPrefix :: "string \<Rightarrow> string \<Rightarrow> bool" where
  "HasPrefix s p = (length p \<le> length s \<and> take (length p) s = p)"

definition TrimPrefix :: "string \<Rightarrow> string \<Rightarrow> string" where
  "TrimPrefix s p = (if HasPrefix s p then drop (length p) s else s)"

definition HasSuffix :: "string \<Rightarrow> string \<Rightarrow> bool" where
  "HasSuffix s x = (length x \<le> length s \<and> drop (length s - length x) s = x)"

definition TrimSuffix :: "string \<Rightarrow> string \<Rightarrow> string" where
  "TrimSuffix s x = (if HasSuffix s x then take (length s - length x) s else s)"

text \<open>
  \<^verbatim>\<open>utf8.DecodeRuneInString\<close> returns the first code point and its width in bytes.  An
  empty string gives \<open>(RuneError, 0)\<close>; a byte sequence that is not a well-formed
  encoding (a stray continuation byte, a truncated or overlong sequence, a surrogate, a
  value beyond U+10FFFF) gives \<open>(RuneError, 1)\<close>.  The accepted range of the second byte
  depends on the first, as in the library's \<^verbatim>\<open>acceptRanges\<close> table.
\<close>

definition between :: "nat \<Rightarrow> nat \<Rightarrow> char \<Rightarrow> bool" where
  "between lo hi c = (lo \<le> byte c \<and> byte c \<le> hi)"

fun DecodeRuneInString :: "string \<Rightarrow> rune \<times> nat" where
  "DecodeRuneInString [] = (RuneError, 0)"
| "DecodeRuneInString (c0 # rest) =
     (let b0 = byte c0 in
      if b0 < 0x80 then (b0, 1)
      else if b0 < 0xC2 then (RuneError, 1)
      else if b0 < 0xE0 then
        (case rest of
           c1 # _ \<Rightarrow>
             if \<not> between 0x80 0xBF c1 then (RuneError, 1)
             else ((b0 mod 32) * 64 + byte c1 mod 64, 2)
         | _ \<Rightarrow> (RuneError, 1))
      else if b0 < 0xF0 then
        (case rest of
           c1 # c2 # _ \<Rightarrow>
             if \<not> between (if b0 = 0xE0 then 0xA0 else 0x80) (if b0 = 0xED then 0x9F else 0xBF) c1
               then (RuneError, 1)
             else if \<not> between 0x80 0xBF c2 then (RuneError, 1)
             else ((b0 mod 16) * 4096 + (byte c1 mod 64) * 64 + byte c2 mod 64, 3)
         | _ \<Rightarrow> (RuneError, 1))
      else if b0 < 0xF5 then
        (case rest of
           c1 # c2 # c3 # _ \<Rightarrow>
             if \<not> between (if b0 = 0xF0 then 0x90 else 0x80) (if b0 = 0xF4 then 0x8F else 0xBF) c1
               then (RuneError, 1)
             else if \<not> between 0x80 0xBF c2 then (RuneError, 1)
             else if \<not> between 0x80 0xBF c3 then (RuneError, 1)
             else ((b0 mod 8) * 262144 + (byte c1 mod 64) * 4096 + (byte c2 mod 64) * 64
                     + byte c3 mod 64, 4)
         | _ \<Rightarrow> (RuneError, 1))
      else (RuneError, 1))"

text \<open>
  \<^verbatim>\<open>utf8.DecodeLastRuneInString\<close> steps back from the end over at most three
  continuation bytes (\<open>back_to_start\<close> is its \<^verbatim>\<open>for start--; start >= lim; start--\<close> loop),
  decodes from there, and accepts the result only when it ends at the end of the string.
\<close>

definition RuneStart :: "char \<Rightarrow> bool" where
  "RuneStart c = (\<not> between 0x80 0xBF c)"

function back_to_start :: "string \<Rightarrow> int \<Rightarrow> int \<Rightarrow> int" where
  "back_to_start s low start =
     (if start \<ge> low then
        (if RuneStart (s ! nat start) then start else back_to_start s low (start - 1))
      else start)"
  by pat_completeness auto
termination
  by (relation "measure (\<lambda>(s, low, start). nat (start - low + 1))") auto

declare back_to_start.simps [simp del]

definition DecodeLastRuneInString :: "string \<Rightarrow> rune \<times> nat" where
  "DecodeLastRuneInString s =
     (let end = length s in
      if end = 0 then (RuneError, 0)
      else
        let r = byte (s ! (end - 1)) in
        if r < RuneSelf then (r, 1)
        else
          let low = max 0 (int end - 4);
              start = back_to_start s low (int end - 2);
              start = (if start < 0 then 0 else nat start);
              (r, sz) = DecodeRuneInString (drop start s)
          in if start + sz \<noteq> end then (RuneError, 1) else (r, sz))"

text \<open>\<^verbatim>\<open>unicode.IsSpace\<close>: the code points that Unicode classifies as white space.\<close>

definition IsSpace :: "rune \<Rightarrow> bool" where
  "IsSpace r =
     (if r \<le> 0xFF then r \<in> {0x09, 0x0A, 0x0B, 0x0C, 0x0D, 0x20, 0x85, 0xA0}
      else r = 0x1680 \<or> (0x2000 \<le> r \<and> r \<le> 0x200A) \<or> r = 0x2028 \<or> r = 0x2029
           \<or> r = 0x202F \<or> r = 0x205F \<or> r = 0x3000)"

text \<open>
  \<^verbatim>\<open>indexFunc\<close> is the loop \<^verbatim>\<open>for i, r := range s\<close>, which decodes as
  \<^verbatim>\<open>DecodeRuneInString\<close> does; \<open>i\<close> is the current index and \<open>-1\<close> the result when no
  code point qualifies.  It terminates because a non-empty string decodes to a width of at
  least one.
\<close>

lemma DecodeRuneInString_size: "s \<noteq> [] \<Longrightarrow> 1 \<le> snd (DecodeRuneInString s)"
  by (cases s) (auto simp: Let_def split: list.splits)

function indexFunc :: "string \<Rightarrow> (rune \<Rightarrow> bool) \<Rightarrow> bool \<Rightarrow> nat \<Rightarrow> int" where
  "indexFunc s f truth i =
     (if i < length s then
        (let (r, sz) = DecodeRuneInString (drop i s) in
         if f r = truth then int i else indexFunc s f truth (i + sz))
      else -1)"
  by pat_completeness auto
termination
proof (relation "measure (\<lambda>(s, f, truth, i). length s - i)")
  show "wf (measure (\<lambda>(s, f, truth, i). length s - i))" by simp
next
  fix s :: string and f :: "rune \<Rightarrow> bool" and truth :: bool and i :: nat
    and x :: "rune \<times> nat" and r :: rune and sz :: nat
  assume "i < length s" and "x = DecodeRuneInString (drop i s)" and "(r, sz) = x"
  then have "1 \<le> sz"
    using DecodeRuneInString_size [of "drop i s"] by (metis drop_eq_Nil2 not_le snd_conv)
  with \<open>i < length s\<close>
  show "((s, f, truth, i + sz), (s, f, truth, i)) \<in> measure (\<lambda>(s, f, truth, i). length s - i)"
    by simp
qed

declare indexFunc.simps [simp del]


text \<open>
  \<^verbatim>\<open>lastIndexFunc\<close> is the loop \<^verbatim>\<open>for i := len(s); i > 0; { r, size :=
  DecodeLastRuneInString(s[0:i]); i -= size; ... }\<close>.  Its state is the prefix \<^verbatim>\<open>s[0:i]\<close>,
  so that \<open>i\<close> is the length of the argument.
\<close>

lemma back_to_start_le: "back_to_start s low start \<le> start"
proof (induction s low start rule: back_to_start.induct)
  case (1 s low start)
  show ?case
  proof (cases "start \<ge> low \<and> \<not> RuneStart (s ! nat start)")
    case True
    with "1.IH" have "back_to_start s low (start - 1) \<le> start - 1" by simp
    with True show ?thesis by (subst back_to_start.simps) simp
  next
    case False
    then show ?thesis by (subst back_to_start.simps) auto
  qed
qed

lemma decode_tail_size:
  assumes "k < length s"
  shows "1 \<le> snd (case DecodeRuneInString (drop k s) of
                     (r, sz) \<Rightarrow> if k + sz \<noteq> length s then (RuneError, 1) else (r, sz))"
    and "snd (case DecodeRuneInString (drop k s) of
                     (r, sz) \<Rightarrow> if k + sz \<noteq> length s then (RuneError, 1) else (r, sz))
          \<le> length s"
proof -
  obtain r sz where d: "DecodeRuneInString (drop k s) = (r, sz)"
    by (cases "DecodeRuneInString (drop k s)")
  from assms have "drop k s \<noteq> []" by simp
  from DecodeRuneInString_size [OF this] d have "1 \<le> sz" by simp
  with assms d show
    "1 \<le> snd (case DecodeRuneInString (drop k s) of
                     (r, sz) \<Rightarrow> if k + sz \<noteq> length s then (RuneError, 1) else (r, sz))"
    and "snd (case DecodeRuneInString (drop k s) of
                     (r, sz) \<Rightarrow> if k + sz \<noteq> length s then (RuneError, 1) else (r, sz))
          \<le> length s"
    by auto
qed

lemma DecodeLastRuneInString_size:
  assumes "s \<noteq> []"
  shows "1 \<le> snd (DecodeLastRuneInString s) \<and> snd (DecodeLastRuneInString s) \<le> length s"
proof -
  from assms have e: "0 < length s" by simp
  define st where "st = back_to_start s (max 0 (int (length s) - 4)) (int (length s) - 2)"
  define k where "k = (if st < 0 then 0 else nat st)"
  have "st \<le> int (length s) - 2" unfolding st_def by (rule back_to_start_le)
  with e have k: "k < length s" by (auto simp: k_def)
  show ?thesis
  proof (cases "byte (s ! (length s - 1)) < RuneSelf")
    case True
    with e show ?thesis by (simp add: DecodeLastRuneInString_def Let_def Suc_le_eq)
  next
    case False
    have "DecodeLastRuneInString s =
        (case DecodeRuneInString (drop k s) of
           (r, sz) \<Rightarrow> if k + sz \<noteq> length s then (RuneError, 1) else (r, sz))"
      unfolding DecodeLastRuneInString_def Let_def k_def st_def using False e by simp
    with decode_tail_size [OF k] show ?thesis by simp
  qed
qed

function lastIndexFunc :: "string \<Rightarrow> (rune \<Rightarrow> bool) \<Rightarrow> bool \<Rightarrow> int" where
  "lastIndexFunc s f truth =
     (if length s > 0 then
        (let (r, sz) = DecodeLastRuneInString s in
         if f r = truth then int (length s - sz)
         else lastIndexFunc (take (length s - sz) s) f truth)
      else -1)"
  by pat_completeness auto
termination
proof (relation "measure (\<lambda>(s, f, truth). length s)")
  show "wf (measure (\<lambda>(s, f, truth). length s))" by simp
next
  fix s :: string and f :: "rune \<Rightarrow> bool" and truth :: bool
    and x :: "rune \<times> nat" and r :: rune and sz :: nat
  assume "0 < length s" and "x = DecodeLastRuneInString s" and "(r, sz) = x"
  then have "1 \<le> sz"
    using DecodeLastRuneInString_size [of s] by (metis length_greater_0_conv snd_conv)
  with \<open>0 < length s\<close>
  show "((take (length s - sz) s, f, truth), (s, f, truth)) \<in> measure (\<lambda>(s, f, truth). length s)"
    by simp
qed

declare lastIndexFunc.simps [simp del]

text \<open>
  \<^verbatim>\<open>strings.TrimLeftFunc\<close>, \<^verbatim>\<open>TrimRightFunc\<close>, \<^verbatim>\<open>TrimFunc\<close> and \<^verbatim>\<open>TrimSpace\<close>.  The
  library's \<^verbatim>\<open>TrimSpace\<close> first skips ASCII spaces at both ends and falls back to
  \<^verbatim>\<open>TrimFunc(s, unicode.IsSpace)\<close> at the first byte outside ASCII; the result is that of
  \<^verbatim>\<open>TrimFunc(s, unicode.IsSpace)\<close> on the whole string.
\<close>

definition TrimLeftFunc :: "string \<Rightarrow> (rune \<Rightarrow> bool) \<Rightarrow> string" where
  "TrimLeftFunc s f =
     (let i = indexFunc s f False 0 in
      if i = -1 then [] else drop (nat i) s)"

definition TrimRightFunc :: "string \<Rightarrow> (rune \<Rightarrow> bool) \<Rightarrow> string" where
  "TrimRightFunc s f =
     (let i = lastIndexFunc s f False in
      if i \<ge> 0 \<and> byte (s ! nat i) \<ge> RuneSelf then
        (let (r, wid) = DecodeRuneInString (drop (nat i) s) in take (nat (i + int wid)) s)
      else take (nat (i + 1)) s)"

definition TrimFunc :: "string \<Rightarrow> (rune \<Rightarrow> bool) \<Rightarrow> string" where
  "TrimFunc s f = TrimRightFunc (TrimLeftFunc s f) f"

definition TrimSpace :: "string \<Rightarrow> string" where
  "TrimSpace s = TrimFunc s IsSpace"

text \<open>
  \<^verbatim>\<open>utf8.RuneCountInString\<close>: the number of code points, where every byte that does not
  start a well-formed encoding counts as one.
\<close>

function RuneCountInString :: "string \<Rightarrow> nat" where
  "RuneCountInString s =
     (if s = [] then 0
      else (let (r, sz) = DecodeRuneInString s in 1 + RuneCountInString (drop sz s)))"
  by pat_completeness auto
termination
proof (relation "measure length")
  show "wf (measure length)" by simp
next
  fix s :: string and x :: "rune \<times> nat" and r :: rune and sz :: nat
  assume "s \<noteq> []" and "x = DecodeRuneInString s" and "(r, sz) = x"
  then have "1 \<le> sz"
    using DecodeRuneInString_size [of s] by (metis snd_conv)
  with \<open>s \<noteq> []\<close> show "(drop sz s, s) \<in> measure length"
    by simp
qed

declare RuneCountInString.simps [simp del]

text \<open>
  \<^verbatim>\<open>utf8.AppendRune\<close>: the UTF-8 encoding of a code point, one to four bytes; a surrogate
  or a value beyond U+10FFFF is encoded as U+FFFD.
\<close>

definition EncodeRune :: "rune \<Rightarrow> string" where
  "EncodeRune r =
     (if r < 0x80 then [char_of_byte r]
      else if r < 0x800 then [char_of_byte (0xC0 + r div 64), char_of_byte (0x80 + r mod 64)]
      else if r > 0x10FFFF \<or> (0xD800 \<le> r \<and> r \<le> 0xDFFF) then
        [char_of_byte 0xEF, char_of_byte 0xBF, char_of_byte 0xBD]
      else if r < 0x10000 then
        [char_of_byte (0xE0 + r div 4096), char_of_byte (0x80 + (r div 64) mod 64),
         char_of_byte (0x80 + r mod 64)]
      else
        [char_of_byte (0xF0 + r div 262144), char_of_byte (0x80 + (r div 4096) mod 64),
         char_of_byte (0x80 + (r div 64) mod 64), char_of_byte (0x80 + r mod 64)])"

text \<open>
  The conversion \<^verbatim>\<open>string(b)\<close> of a byte \<open>b\<close> is the UTF-8 encoding of the code point
  with the value of \<open>b\<close>, so \<^verbatim>\<open>strings.ToUpper(string(b))\<close> is the encoding of the upper
  case of a code point up to U+00FF.  \<open>ToUpperLatin1\<close> is \<^verbatim>\<open>unicode.ToUpper\<close> on these code
  points: the letters a to z, the micro sign, the accented letters U+00E0 to U+00FE
  without the division sign, and y with diaeresis have an upper case; every other code
  point up to U+00FF is its own.
\<close>

definition ToUpperLatin1 :: "rune \<Rightarrow> rune" where
  "ToUpperLatin1 r =
     (if 0x61 \<le> r \<and> r \<le> 0x7A then r - 32
      else if r = 0xB5 then 0x39C
      else if (0xE0 \<le> r \<and> r \<le> 0xF6) \<or> (0xF8 \<le> r \<and> r \<le> 0xFE) then r - 32
      else if r = 0xFF then 0x178
      else r)"

definition ToUpper_of_byte :: "char \<Rightarrow> string" where
  "ToUpper_of_byte c = EncodeRune (ToUpperLatin1 (byte c))"

section \<open>Commit messages from prompts (package cli)\<close>

text \<open>
  \<^verbatim>\<open>cleanPromptForCommit\<close>.  \<open>strip_first\<close> is the inner loop over the prefixes, which
  stops at the first one that matches; \<open>strip_prefixes\<close> is the outer loop, which runs
  until no prefix is found.  It terminates because every prefix is non-empty.
\<close>

definition prefixes :: "string list" where
  "prefixes =
     [''Can you '', ''can you '', ''Please '', ''please '', ''Let's '', ''let's '',
      ''Could you '', ''could you '', ''Would you '', ''would you '',
      ''I want you to '', ''I'd like you to '', ''I need you to '']"

fun strip_first :: "string list \<Rightarrow> string \<Rightarrow> string option" where
  "strip_first [] cleaned = None"
| "strip_first (prefix # ps) cleaned =
     (if HasPrefix cleaned prefix then Some (TrimPrefix cleaned prefix)
      else strip_first ps cleaned)"

lemma strip_first_shorter:
  "strip_first ps s = Some s' \<Longrightarrow> [] \<notin> set ps \<Longrightarrow> length s' < length s"
proof (induction ps)
  case Nil
  then show ?case by simp
next
  case (Cons p ps)
  show ?case
  proof (cases "HasPrefix s p")
    case True
    from Cons.prems have "p \<noteq> []" by auto
    then have "0 < length p" by simp
    moreover from True Cons.prems have "s' = drop (length p) s" and "length p \<le> length s"
      by (auto simp: HasPrefix_def TrimPrefix_def)
    ultimately have "length s' = length s - length p" and "length s - length p < length s"
      by (simp, arith)
    then show ?thesis by simp
  next
    case False
    with Cons show ?thesis by simp
  qed
qed

function strip_prefixes :: "string \<Rightarrow> string" where
  "strip_prefixes cleaned =
     (case strip_first prefixes cleaned of
        Some cleaned' \<Rightarrow> strip_prefixes cleaned'
      | None \<Rightarrow> cleaned)"
  by pat_completeness auto
termination
proof (relation "measure length")
  show "wf (measure length)" by simp
next
  fix cleaned x2 :: string
  assume "strip_first prefixes cleaned = Some x2"
  moreover have "[] \<notin> set prefixes" by (simp add: prefixes_def)
  ultimately show "(x2, cleaned) \<in> measure length"
    using strip_first_shorter by simp
qed

declare strip_prefixes.simps [simp del]

definition cleanPromptForCommit :: "string \<Rightarrow> string" where
  "cleanPromptForCommit prompt =
     (let cleaned = strip_prefixes prompt;
          cleaned = TrimSuffix cleaned ''?'';
          cleaned = TrimSpace cleaned;
          cleaned = (if length cleaned > 72 then TrimSpace (take 72 cleaned) else cleaned)
      in if length cleaned > 0 then ToUpper_of_byte (hd cleaned) @ tl cleaned else cleaned)"

definition generateCommitMessage :: "string \<Rightarrow> string" where
  "generateCommitMessage originalPrompt =
     (if originalPrompt \<noteq> [] then
        (let cleaned = cleanPromptForCommit originalPrompt in
         if cleaned \<noteq> [] then cleaned else ''Claude Code session updates'')
      else ''Claude Code session updates'')"

text \<open>
  The value of the variable \<^verbatim>\<open>cleaned\<close> of \<^verbatim>\<open>cleanPromptForCommit\<close> when it reaches the
  capitalisation step.
\<close>

definition truncated :: "string \<Rightarrow> string" where
  "truncated prompt =
     (let cleaned = TrimSpace (TrimSuffix (strip_prefixes prompt) ''?'')
      in if length cleaned > 72 then TrimSpace (take 72 cleaned) else cleaned)"


section \<open>Shadow branch names (package strategy)\<close>

definition hex_class :: "(char \<times> char) list" where
  "hex_class = [(CHR ''0'', CHR ''9''), (CHR ''a'', CHR ''f''), (CHR ''A'', CHR ''F'')]"

definition hexdigits :: "char set" where
  "hexdigits = set ''0123456789abcdefABCDEF''"

text \<open>\<^verbatim>\<open>var shadowBranchPattern = regexp.MustCompile(`^entire/[0-9a-fA-F]{7,}$`)\<close>\<close>

definition shadowBranchPattern :: regexp where
  "shadowBranchPattern = Cat (Literal ''entire/'') (AtLeast 7 (Class hex_class))"

definition IsShadowBranch :: "string \<Rightarrow> bool" where
  "IsShadowBranch branchName =
     (if branchName = ''entire/sessions'' then False
      else MatchString shadowBranchPattern branchName)"

section \<open>Slices and errors\<close>

text \<open>
  A Go slice is either \<^verbatim>\<open>nil\<close> or a sequence of elements; \<^verbatim>\<open>len\<close> of both the nil slice
  and the empty slice is 0, and \<^verbatim>\<open>append\<close> to the nil slice allocates.  An \<^verbatim>\<open>error\<close> is
  one of the sentinel values of go-git, a message (\<^verbatim>\<open>errors.New\<close>, \<^verbatim>\<open>fmt.Errorf\<close> without
  \<^verbatim>\<open>%w\<close>), or a message wrapped around another error (\<^verbatim>\<open>fmt.Errorf("...: %w", err)\<close>).
\<close>

datatype 'a slice = NilSlice | Slice "'a list"

fun elems :: "'a slice \<Rightarrow> 'a list" where
  "elems NilSlice = []"
| "elems (Slice xs) = xs"

definition len :: "'a slice \<Rightarrow> nat" where
  "len s = length (elems s)"

fun append_slice :: "'a slice \<Rightarrow> 'a \<Rightarrow> 'a slice" where
  "append_slice NilSlice x = Slice [x]"
| "append_slice (Slice xs) x = Slice (xs @ [x])"

datatype error =
    ErrRepositoryNotExists
  | ErrReferenceNotFound
  | ErrMaxResolveRecursion
  | ErrObjectNotFound
  | ErrStorer
  | New string
  | Wrap string error

fun errors_Is :: "error \<Rightarrow> error \<Rightarrow> bool" where
  "errors_Is (Wrap msg e) target = (Wrap msg e = target \<or> errors_Is e target)"
| "errors_Is e target = (e = target)"

section \<open>The repository (go-git)\<close>

text \<open>
  What the functions of the repository read and write through go-git: the reference store
  (full reference names, in the order the storer iterates them, each a hash reference or a
  symbolic one) and the commit objects.  \<open>refs_unreadable\<close>, \<open>unremovable\<close> and
  \<open>write_fails\<close> stand for the storer failing to list its references, to remove one, or
  to write an object or a reference.  \<open>world\<close> is what
  \<^verbatim>\<open>OpenRepository\<close> of package strategy, and \<^verbatim>\<open>openRepository\<close> of package cli,
  find in the working directory: a repository or none.
\<close>

type_synonym hash = string

datatype target = Hash hash | Symbolic string

record commit =
  Message :: string
  TreeHash :: hash
  ParentHashes :: "hash list"
  AuthorName :: string
  AuthorEmail :: string

record repository =
  refs :: "(string \<times> target) list"
  objects :: "(hash \<times> commit) list"
  refs_unreadable :: bool
  unremovable :: "string list"
  write_fails :: bool

type_synonym world = "repository option"

definition OpenRepository :: "world \<Rightarrow> error + repository" where
  "OpenRepository w = (case w of None \<Rightarrow> Inl ErrRepositoryNotExists | Some repo \<Rightarrow> Inr repo)"

definition NewBranchReferenceName :: "string \<Rightarrow> string" where
  "NewBranchReferenceName name = ''refs/heads/'' @ name"

definition IsBranch :: "string \<Rightarrow> bool" where
  "IsBranch name = HasPrefix name ''refs/heads/''"

text \<open>
  \<^verbatim>\<open>repo.Reference(name, true)\<close> follows symbolic references, at most
  \<^verbatim>\<open>MaxResolveRecursion\<close> times, and returns the reference it arrives at.
\<close>

definition MaxResolveRecursion :: nat where
  "MaxResolveRecursion = 1024"

function resolveReference ::
  "(string \<times> target) list \<Rightarrow> string \<times> target \<Rightarrow> nat \<Rightarrow> error + string \<times> target" where
  "resolveReference s r recursion =
     (case snd r of
        Hash h \<Rightarrow> Inr r
      | Symbolic t \<Rightarrow>
          if recursion > MaxResolveRecursion then Inl ErrMaxResolveRecursion
          else (case map_of s t of
                  None \<Rightarrow> Inl ErrReferenceNotFound
                | Some x \<Rightarrow> resolveReference s (t, x) (recursion + 1)))"
  by pat_completeness auto
termination
  by (relation "measure (\<lambda>(s, r, recursion). Suc MaxResolveRecursion - recursion)") auto

declare resolveReference.simps [simp del]

definition Reference :: "repository \<Rightarrow> string \<Rightarrow> bool \<Rightarrow> error + string \<times> target" where
  "Reference repo name resolved =
     (case map_of (refs repo) name of
        None \<Rightarrow> Inl ErrReferenceNotFound
      | Some x \<Rightarrow> if resolved then resolveReference (refs repo) (name, x) 0 else Inr (name, x))"

definition References :: "repository \<Rightarrow> error + (string \<times> target) list" where
  "References repo = (if refs_unreadable repo then Inl ErrStorer else Inr (refs repo))"

definition RemoveReference :: "repository \<Rightarrow> string \<Rightarrow> error + repository" where
  "RemoveReference repo name =
     (if name \<in> set (unremovable repo) then Inl ErrStorer
      else Inr (repo\<lparr>refs := filter (\<lambda>(n, t). n \<noteq> name) (refs repo)\<rparr>))"

section \<open>The shadow branch janitor (package strategy)\<close>

text \<open>
  \<open>shadow_refs\<close> is the callback of \<^verbatim>\<open>refs.ForEach\<close> in \<^verbatim>\<open>ListShadowBranches\<close>, run over
  the references; the callback never fails.  \<open>delete_refs\<close> is the loop of
  \<^verbatim>\<open>DeleteShadowBranches\<close>; the named results \<^verbatim>\<open>deleted\<close> and \<^verbatim>\<open>failed\<close> start as nil
  slices.
\<close>

fun shadow_refs :: "(string \<times> target) list \<Rightarrow> string slice \<Rightarrow> string slice" where
  "shadow_refs [] shadowBranches = shadowBranches"
| "shadow_refs (ref # rest) shadowBranches =
     (if \<not> IsBranch (fst ref) then shadow_refs rest shadowBranches
      else
        let branchName = TrimPrefix (fst ref) ''refs/heads/'' in
        if IsShadowBranch branchName
        then shadow_refs rest (append_slice shadowBranches branchName)
        else shadow_refs rest shadowBranches)"

definition ListShadowBranches :: "world \<Rightarrow> string slice \<times> error option" where
  "ListShadowBranches w =
     (case OpenRepository w of
        Inl err \<Rightarrow> (NilSlice, Some (Wrap ''failed to open git repository'' err))
      | Inr repo \<Rightarrow>
          (case References repo of
             Inl err \<Rightarrow> (NilSlice, Some (Wrap ''failed to get references'' err))
           | Inr iter \<Rightarrow>
               let shadowBranches = shadow_refs iter NilSlice;
                   shadowBranches = (if shadowBranches = NilSlice then Slice [] else shadowBranches)
               in (shadowBranches, None)))"

fun delete_refs ::
  "repository \<Rightarrow> string list \<Rightarrow> string slice \<Rightarrow> string slice
     \<Rightarrow> string slice \<times> string slice \<times> repository" where
  "delete_refs repo [] deleted failed = (deleted, failed, repo)"
| "delete_refs repo (branch # rest) deleted failed =
     (let refName = NewBranchReferenceName branch in
      case Reference repo refName True of
        Inl err \<Rightarrow> delete_refs repo rest deleted (append_slice failed branch)
      | Inr ref \<Rightarrow>
          (case RemoveReference repo (fst ref) of
             Inl err \<Rightarrow> delete_refs repo rest deleted (append_slice failed branch)
           | Inr repo' \<Rightarrow> delete_refs repo' rest (append_slice deleted branch) failed))"

definition DeleteShadowBranches ::
  "world \<Rightarrow> string slice \<Rightarrow> (string slice \<times> string slice \<times> error option) \<times> world" where
  "DeleteShadowBranches w branches =
     (if len branches = 0 then ((Slice [], Slice [], None), w)
      else
        case OpenRepository w of
          Inl err \<Rightarrow> ((NilSlice, NilSlice, Some (Wrap ''failed to open git repository'' err)), w)
        | Inr repo \<Rightarrow>
            (case delete_refs repo (elems branches) NilSlice NilSlice of
               (deleted, failed, repo') \<Rightarrow> ((deleted, failed, None), Some repo')))"

definition local_branches :: "(string \<times> target) list \<Rightarrow> string list" where
  "local_branches rs = map (\<lambda>n. TrimPrefix n ''refs/heads/'') (filter IsBranch (map fst rs))"


section \<open>Summarize (package cli)\<close>

definition Head :: "repository \<Rightarrow> error + string \<times> target" where
  "Head repo = Reference repo ''HEAD'' True"

definition ZeroHash :: hash where
  "ZeroHash = replicate 40 CHR ''0''"

fun ref_hash :: "string \<times> target \<Rightarrow> hash" where
  "ref_hash (name, Hash h) = h"
| "ref_hash (name, Symbolic t) = ZeroHash"

definition CommitObject :: "repository \<Rightarrow> hash \<Rightarrow> error + commit" where
  "CommitObject repo h =
     (case map_of (objects repo) h of None \<Rightarrow> Inl ErrObjectNotFound | Some c \<Rightarrow> Inr c)"

text \<open>
  \<^verbatim>\<open>object.NewCommitPreorderIter(c, nil, nil)\<close> walks the history depth first: it yields
  the start commit, then takes commits from the parent iterator on top of its stack,
  skipping the ones already seen; each commit yielded pushes an iterator over those of its
  parents that are not yet seen.  Loading a commit that the object store lacks ends the
  walk with an error.  \<open>preorder\<close> returns the commits in the order the iterator yields
  them, and the error that ended the walk, if any.
\<close>

function preorder ::
  "(hash \<times> commit) list \<Rightarrow> hash list list \<Rightarrow> hash list \<Rightarrow> hash list \<times> error option" where
  "preorder objs [] seen = ([], None)"
| "preorder objs ([] # stack) seen = preorder objs stack seen"
| "preorder objs ((h # hs) # stack) seen =
     (case map_of objs h of
        None \<Rightarrow> ([], Some ErrObjectNotFound)
      | Some c \<Rightarrow>
          if h \<in> set seen then preorder objs (hs # stack) seen
          else
            (let seen' = h # seen;
                 stack' = (if ParentHashes c \<noteq> []
                           then filter (\<lambda>p. p \<notin> set seen') (ParentHashes c) # hs # stack
                           else hs # stack);
                 rest = preorder objs stack' seen'
             in (h # fst rest, snd rest)))"
  by pat_completeness auto
termination
proof (relation "measures [\<lambda>(objs, stack, seen). card (fst ` set objs - set seen),
                          \<lambda>(objs, stack, seen). sum_list (map (\<lambda>l. Suc (length l)) stack)]",
       goal_cases)
  case 1
  show ?case by simp
next
  case (2 objs stack seen)
  show ?case by simp
next
  case (3 objs h hs stack seen c)
  then show ?case by simp
next
  case (4 objs h hs stack seen c seen' stack')
  then have "h \<in> fst ` set objs" and "h \<notin> set seen"
    by (auto dest: map_of_SomeD intro: rev_image_eqI)
  then have "fst ` set objs - set (h # seen) \<subset> fst ` set objs - set seen"
    by auto
  then have "card (fst ` set objs - set (h # seen)) < card (fst ` set objs - set seen)"
    by (intro psubset_card_mono) auto
  with 4 show ?case by simp
qed

declare preorder.simps [simp del]

definition NewCommitPreorderIter :: "repository \<Rightarrow> hash \<Rightarrow> hash list \<times> error option" where
  "NewCommitPreorderIter repo start = preorder (objects repo) [[start]] []"

text \<open>
  \<^verbatim>\<open>CountCommitsBetween\<close>: the callback of \<^verbatim>\<open>iter.ForEach\<close> stops the iteration at
  \<^verbatim>\<open>from\<close> and counts the commits before it; an error of the iterator is reported only
  when it comes before \<^verbatim>\<open>from\<close>.
\<close>

fun count_until :: "hash \<Rightarrow> hash list \<Rightarrow> error option \<Rightarrow> nat \<Rightarrow> error + nat" where
  "count_until from [] err cnt =
     (case err of None \<Rightarrow> Inr cnt | Some e \<Rightarrow> Inl (Wrap ''failed to iterate commits'' e))"
| "count_until from (c # cs) err cnt =
     (if c = from then Inr cnt else count_until from cs err (cnt + 1))"

definition CountCommitsBetween :: "world \<Rightarrow> hash \<Rightarrow> hash \<Rightarrow> error + nat" where
  "CountCommitsBetween w from to =
     (case OpenRepository w of
        Inl err \<Rightarrow> Inl (Wrap ''failed to open git repository'' err)
      | Inr repo \<Rightarrow>
          (case CommitObject repo to of
             Inl err \<Rightarrow> Inl (Wrap ''failed to get 'to' commit'' err)
           | Inr toCommit \<Rightarrow>
               (case NewCommitPreorderIter repo to of
                  (commits, err) \<Rightarrow> count_until from commits err 0)))"

definition BranchExists :: "world \<Rightarrow> string \<Rightarrow> error + bool" where
  "BranchExists w branchName =
     (case OpenRepository w of
        Inl err \<Rightarrow> Inl (Wrap ''failed to open git repository'' err)
      | Inr repo \<Rightarrow>
          (case Reference repo (NewBranchReferenceName branchName) True of
             Inl err \<Rightarrow>
               if errors_Is err ErrReferenceNotFound then Inr False
               else Inl (Wrap ''failed to check branch'' err)
           | Inr ref \<Rightarrow> Inr True))"

text \<open>
  The helpers of package cli that \<^verbatim>\<open>ValidateSummarize\<close> calls and whose sources are not
  part of the model are taken as given: what \<^verbatim>\<open>IsOnDefaultBranch\<close>,
  \<^verbatim>\<open>HasUncommittedChanges\<close>, \<^verbatim>\<open>GetCurrentBranch\<close> and \<^verbatim>\<open>GetMergeBase\<close> return.
\<close>

record git =
  IsOnDefaultBranch :: "error + bool \<times> string"
  HasUncommittedChanges :: "error + bool"
  GetCurrentBranch :: "error + string"
  GetMergeBase :: "string \<Rightarrow> string \<Rightarrow> error + hash"

definition quoted :: "string \<Rightarrow> string" where
  "quoted s = [CHR 0x27] @ s @ [CHR 0x27]"

definition ValidateSummarize :: "git \<Rightarrow> world \<Rightarrow> string \<Rightarrow> bool \<Rightarrow> error option" where
  "ValidateSummarize g w targetBranch skipDefaultBranchCheck =
     (case (if \<not> skipDefaultBranchCheck then
              (case IsOnDefaultBranch g of
                 Inl err \<Rightarrow> Some (Wrap ''failed to check current branch'' err)
               | Inr (isDefault, branchName) \<Rightarrow>
                   if isDefault
                   then Some (New (''cannot summarize '' @ quoted branchName
                                     @ '' branch - create a feature branch first''))
                   else None)
            else None) of
        Some e \<Rightarrow> Some e
      | None \<Rightarrow>
     (case BranchExists w targetBranch of
        Inl err \<Rightarrow> Some (Wrap ''failed to check target branch'' err)
      | Inr exists \<Rightarrow>
     if \<not> exists then Some (New (''target branch '' @ quoted targetBranch @ '' not found''))
     else
     (case HasUncommittedChanges g of
        Inl err \<Rightarrow> Some (Wrap ''failed to check for uncommitted changes'' err)
      | Inr hasChanges \<Rightarrow>
     if hasChanges
     then Some (New ''uncommitted changes detected - commit or stash them before summarizing'')
     else
     (case GetCurrentBranch g of
        Inl err \<Rightarrow> Some (Wrap ''failed to get current branch'' err)
      | Inr currentBranch \<Rightarrow>
     (case GetMergeBase g currentBranch targetBranch of
        Inl err \<Rightarrow> Some (Wrap (''failed to find common ancestor with '' @ targetBranch) err)
      | Inr mergeBase \<Rightarrow>
     (case OpenRepository w of
        Inl err \<Rightarrow> Some (Wrap ''failed to open git repository'' err)
      | Inr repo \<Rightarrow>
     (case Head repo of
        Inl err \<Rightarrow> Some (Wrap ''failed to get HEAD'' err)
      | Inr head \<Rightarrow>
     (case CountCommitsBetween w mergeBase (ref_hash head) of
        Inl err \<Rightarrow> Some (Wrap ''failed to count commits'' err)
      | Inr cnt \<Rightarrow>
     if cnt = 0
     then Some (New (''no commits to summarize - branch is at same commit as '' @ targetBranch))
     else None))))))))"

section \<open>Commit messages with trailers (package cli)\<close>

text \<open>
  \<^verbatim>\<open>CreateSquashedBranch\<close>.  A Go map is modelled by an association list with distinct
  keys, whose order stands for the unspecified order in which \<^verbatim>\<open>range\<close> visits the map;
  \<open>map_get\<close> is the lookup \<^verbatim>\<open>trailers[key]\<close>, the empty string for a missing key.
  \<^verbatim>\<open>sort.Strings\<close> orders strings byte by byte, as the lexicographic order on \<^typ>\<open>string\<close>
  does.  \<open>fullMessage\<close> is the value of the variable of that name.
\<close>

definition nl :: char where
  "nl = CHR 0x0A"

definition map_get :: "(string \<times> string) list \<Rightarrow> string \<Rightarrow> string" where
  "map_get m key = (case map_of m key of None \<Rightarrow> [] | Some v \<Rightarrow> v)"

definition fullMessage :: "string \<Rightarrow> (string \<times> string) list \<Rightarrow> string" where
  "fullMessage message trailers =
     (if length trailers > 0 then
        (let keys = sort (map fst trailers) in
         message @ [nl] @ concat (map (\<lambda>key. [nl] @ key @ '': '' @ map_get trailers key) keys))
      else message)"

text \<open>
  Modelled from the spec: the trailer parser (package trailers, with \<^verbatim>\<open>ParseCheckpoint\<close>)
  is not part of the sources.  The spec (4.2, 6) has trailers in the last paragraph of the
  commit message only, on the lines that match \<^verbatim>\<open>^[A-Za-z][A-Za-z0-9-]*:\s?.*$\<close>; other
  lines are skipped.  \<open>split_lines\<close> cuts the message at every newline,
  \<open>final_paragraph\<close> takes the last block of non-empty lines (blank lines at the end of
  the message are not a paragraph), and \<open>parse_trailer_line\<close> reads a line of the grammar:
  the key up to the first colon, one optional white space character, the value.
\<close>

fun split_lines :: "string \<Rightarrow> string list" where
  "split_lines [] = [[]]"
| "split_lines (c # cs) =
     (if c = nl then [] # split_lines cs
      else (case split_lines cs of l # ls \<Rightarrow> (c # l) # ls | [] \<Rightarrow> [[c]]))"

definition final_paragraph :: "string list \<Rightarrow> string list" where
  "final_paragraph ls = rev (takeWhile (\<lambda>l. l \<noteq> []) (dropWhile (\<lambda>l. l = []) (rev ls)))"

definition is_letter :: "char \<Rightarrow> bool" where
  "is_letter c = (between 0x41 0x5A c \<or> between 0x61 0x7A c)"

definition is_key_char :: "char \<Rightarrow> bool" where
  "is_key_char c = (is_letter c \<or> between 0x30 0x39 c \<or> c = CHR ''-'')"

definition valid_key :: "string \<Rightarrow> bool" where
  "valid_key k = (case k of [] \<Rightarrow> False | c # cs \<Rightarrow> is_letter c \<and> list_all is_key_char cs)"

definition is_ws :: "char \<Rightarrow> bool" where
  "is_ws c = (c \<in> set [CHR 0x09, CHR 0x0A, CHR 0x0C, CHR 0x0D, CHR 0x20])"

definition parse_trailer_line :: "string \<Rightarrow> (string \<times> string) option" where
  "parse_trailer_line l =
     (let key = takeWhile (\<lambda>c. c \<noteq> CHR '':'') l;
          rest = dropWhile (\<lambda>c. c \<noteq> CHR '':'') l
      in if rest = [] \<or> \<not> valid_key key then None
         else Some (key, (case tl rest of
                            [] \<Rightarrow> []
                          | c # v \<Rightarrow> if is_ws c then v else c # v)))"

definition parse_trailers :: "string \<Rightarrow> (string \<times> string) list" where
  "parse_trailers message = List.map_filter parse_trailer_line (final_paragraph (split_lines message))"

definition ParseCheckpoint :: "string \<Rightarrow> string option" where
  "ParseCheckpoint message = map_of (parse_trailers message) ''Entire-Checkpoint''"

definition ParseSession :: "string \<Rightarrow> string option" where
  "ParseSession message = map_of (parse_trailers message) ''Entire-Session''"





fun set_ref :: "(string \<times> target) list \<Rightarrow> string \<Rightarrow> target \<Rightarrow> (string \<times> target) list" where
  "set_ref [] name t = [(name, t)]"
| "set_ref ((n, x) # rs) name t = (if n = name then (n, t) # rs else (n, x) # set_ref rs name t)"

definition SetReference :: "repository \<Rightarrow> string \<times> target \<Rightarrow> error + repository" where
  "SetReference repo ref =
     (if write_fails repo then Inl ErrStorer
      else Inr (repo\<lparr>refs := set_ref (refs repo) (fst ref) (snd ref)\<rparr>))"

definition SetEncodedObject :: "repository \<Rightarrow> hash \<Rightarrow> commit \<Rightarrow> error + repository" where
  "SetEncodedObject repo h c =
     (if write_fails repo then Inl ErrStorer
      else Inr (repo\<lparr>objects := (h, c) # objects repo\<rparr>))"



section \<open>Resume (package cli)\<close>

text \<open>
  Modelled from the spec: the committed store (package strategy) and the path helpers
  (package paths) are not part of the sources.  By the spec (3, 4.5) the metadata branch
  holds one record per checkpoint under the path \<^verbatim>\<open><id[:2]>/<id[2:]>\<close>, and the record
  names the session; \<open>tree\<close> is such a tree, \<open>CheckpointPath\<close> the sharded path and
  \<open>ReadCheckpointMetadata\<close> the lookup.  \<^verbatim>\<open>paths.ParseCheckpointTrailer\<close> is \<open>ParseCheckpoint\<close>
  of the trailer codec.
\<close>

record CheckpointMetadata =
  SessionID :: string

type_synonym tree = "(string \<times> CheckpointMetadata) list"

definition CheckpointPath :: "string \<Rightarrow> string" where
  "CheckpointPath checkpointID = take 2 checkpointID @ ''/'' @ drop 2 checkpointID"

definition ReadCheckpointMetadata :: "tree \<Rightarrow> string \<Rightarrow> error + CheckpointMetadata" where
  "ReadCheckpointMetadata t path =
     (case map_of t path of None \<Rightarrow> Inl ErrObjectNotFound | Some m \<Rightarrow> Inr m)"

text \<open>
  What \<^verbatim>\<open>resumeSession\<close> needs from outside the sources is taken as given: the agent
  (\<^verbatim>\<open>agent.Detect\<close>, \<^verbatim>\<open>agent.Default\<close> and the methods of the agent), the working
  directory, the session log of the strategy, and whether the two metadata trees can be
  read.  \<open>os_state\<close> is what the functions change: the lines written to standard error and
  the files of the agent's session directory.  \<^verbatim>\<open>filepath.Join\<close> is modelled by joining
  with a slash.
\<close>

record agent =
  AgentName :: string
  GetSessionDir :: "string \<Rightarrow> error + string"
  ExtractAgentSessionID :: "string \<Rightarrow> string"
  FormatResumeCommand :: "string \<Rightarrow> string"
  WriteSession_fails :: bool

record resume_env =
  GetMetadataBranchTree :: "repository \<Rightarrow> error + tree"
  GetRemoteMetadataBranchTree :: "repository \<Rightarrow> error + tree"
  Detect :: "error + agent"
  Default :: "agent option"
  Getwd :: "error + string"
  GetSessionLog :: "string \<Rightarrow> error + string"
  MkdirAll_fails :: bool

record os_state =
  stderr :: "string list"
  files :: "(string \<times> string) list"

definition ErrNoMetadata :: error where
  "ErrNoMetadata = New ''no metadata''"

definition Fprintf :: "os_state \<Rightarrow> string \<Rightarrow> os_state" where
  "Fprintf st text = st\<lparr>stderr := stderr st @ [text]\<rparr>"

definition fileExists :: "os_state \<Rightarrow> string \<Rightarrow> bool" where
  "fileExists st path = (map_of (files st) path \<noteq> None)"

definition WriteSession :: "agent \<Rightarrow> string \<Rightarrow> string \<Rightarrow> os_state \<Rightarrow> error + os_state" where
  "WriteSession ag sessionRef nativeData st =
     (if WriteSession_fails ag then Inl (New ''failed to write session file'')
      else Inr (st\<lparr>files := (sessionRef, nativeData) # files st\<rparr>))"

text \<open>
  \<^verbatim>\<open>firstLine\<close> returns the text before the first newline.  The functions below follow
  \<^verbatim>\<open>resume.go\<close> branch by branch; every \<^verbatim>\<open>fmt.Fprintf(os.Stderr, ...)\<close> appends one
  entry to \<open>stderr\<close>.
\<close>

definition firstLine :: "string \<Rightarrow> string" where
  "firstLine s = takeWhile (\<lambda>c. c \<noteq> nl) s"

definition checkRemoteMetadata ::
  "resume_env \<Rightarrow> repository \<Rightarrow> string \<Rightarrow> os_state \<Rightarrow> error option \<times> os_state" where
  "checkRemoteMetadata env repo checkpointID st =
     (case GetRemoteMetadataBranchTree env repo of
        Inl err \<Rightarrow>
          (None,
           Fprintf
             (Fprintf st (''Checkpoint '' @ quoted checkpointID
                            @ '' found in commit but session metadata not available\<newline>''))
             ''The entire/sessions branch may not exist locally or on the remote.\<newline>'')
      | Inr remoteTree \<Rightarrow>
          (case ReadCheckpointMetadata remoteTree (CheckpointPath checkpointID) of
             Inl err \<Rightarrow>
               (None,
                Fprintf st (''Checkpoint '' @ quoted checkpointID
                              @ '' found in commit but session metadata not available\<newline>''))
           | Inr m \<Rightarrow>
               (None,
                Fprintf
                  (Fprintf
                     (Fprintf
                        (Fprintf st (''Checkpoint '' @ quoted checkpointID
                           @ '' found in commit but session metadata not available locally\<newline>''))
                        ''The metadata exists on origin. To fetch it, run:\<newline>'')
                     ''  git fetch origin entire/sessions:entire/sessions\<newline>'')
                  ''\<newline>Then run this command again.\<newline>'')))"

definition print_resume_command :: "agent \<Rightarrow> string \<Rightarrow> os_state \<Rightarrow> os_state" where
  "print_resume_command ag agentSessionID st =
     Fprintf (Fprintf st ''\<newline>To continue this session, run:\<newline>'')
       (''  '' @ FormatResumeCommand ag agentSessionID @ ''\<newline>'')"

definition resumeSession ::
  "resume_env \<Rightarrow> string \<Rightarrow> string \<Rightarrow> os_state \<Rightarrow> error option \<times> os_state" where
  "resumeSession env sessionID checkpointID st =
     (case (case Detect env of
              Inr ag \<Rightarrow> Inr ag
            | Inl err \<Rightarrow>
                (case Default env of
                   None \<Rightarrow> Inl (Wrap ''no agent available'' err)
                 | Some ag \<Rightarrow> Inr ag)) of
        Inl err \<Rightarrow> (Some err, st)
      | Inr ag \<Rightarrow>
     (case Getwd env of
        Inl err \<Rightarrow> (Some (Wrap ''failed to get current directory'' err), st)
      | Inr cwd \<Rightarrow>
     (case GetSessionDir ag cwd of
        Inl err \<Rightarrow> (Some (Wrap ''failed to determine session directory'' err), st)
      | Inr sessionDir \<Rightarrow>
     (let agentSessionID = ExtractAgentSessionID ag sessionID;
          sessionLogPath = sessionDir @ ''/'' @ agentSessionID @ ''.jsonl'';
          done = (\<lambda>st. (None,
                    print_resume_command ag agentSessionID
                      (Fprintf st (''Session: '' @ sessionID @ ''\<newline>''))))
      in
     if \<not> fileExists st sessionLogPath then
       (case GetSessionLog env checkpointID of
          Inl err \<Rightarrow>
            if errors_Is err ErrNoMetadata then
              (None,
               print_resume_command ag agentSessionID
                 (Fprintf st (''Session '' @ quoted sessionID
                    @ '' found in commit trailer but session log not available\<newline>'')))
            else (Some (Wrap ''failed to get session log'' err), st)
        | Inr logContent \<Rightarrow>
            if MkdirAll_fails env
            then (Some (Wrap ''failed to create session directory'' ErrStorer), st)
            else
              (case WriteSession ag sessionLogPath logContent st of
                 Inl err \<Rightarrow> (Some (Wrap ''failed to write session'' err), st)
               | Inr st' \<Rightarrow>
                   done (Fprintf st' (''Session restored to: '' @ sessionLogPath @ ''\<newline>''))))
     else done st))))"

definition resumeFromCurrentBranch ::
  "resume_env \<Rightarrow> world \<Rightarrow> string \<Rightarrow> os_state \<Rightarrow> error option \<times> os_state" where
  "resumeFromCurrentBranch env w branchName st =
     (case OpenRepository w of
        Inl err \<Rightarrow> (Some (Wrap ''not a git repository'' err), st)
      | Inr repo \<Rightarrow>
     (case Head repo of
        Inl err \<Rightarrow> (Some (Wrap ''failed to get HEAD'' err), st)
      | Inr head \<Rightarrow>
     (case CommitObject repo (ref_hash head) of
        Inl err \<Rightarrow> (Some (Wrap ''failed to get commit'' err), st)
      | Inr commit \<Rightarrow>
     (case ParseCheckpoint (Message commit) of
        None \<Rightarrow>
          (None,
           Fprintf
             (Fprintf st (''No Entire checkpoint found for the last commit on branch ''
                            @ quoted branchName @ ''\<newline>''))
             (''Commit: '' @ take 7 (ref_hash head) @ '' '' @ firstLine (Message commit)
                @ ''\<newline>''))
      | Some checkpointID \<Rightarrow>
     (case GetMetadataBranchTree env repo of
        Inl err \<Rightarrow> checkRemoteMetadata env repo checkpointID st
      | Inr metadataTree \<Rightarrow>
     (case ReadCheckpointMetadata metadataTree (CheckpointPath checkpointID) of
        Inl err \<Rightarrow> checkRemoteMetadata env repo checkpointID st
      | Inr metadata \<Rightarrow> resumeSession env (SessionID metadata) checkpointID st))))))"

section \<open>Attribution (the attribution engine)\<close>










section \<open>Starting a session (session state and temporary store)\<close>

text \<open>
  Modelled from the spec: the session state store and the temporary store are not part of
  the sources; only their integration tests are.  By the spec (4.3, 4.4) \<open>reserve\<close>
  creates the shadow branch \<^verbatim>\<open>entire/<short-hash>\<close> of the base commit if it is absent,
  with an initial empty commit that carries the trailers \<^verbatim>\<open>Entire-Session\<close> and
  \<^verbatim>\<open>Entire-Strategy\<close>; if the branch exists and the \<^verbatim>\<open>Entire-Session\<close> trailer of its tip
  names a different session it fails with \<^verbatim>\<open>SessionIdConflict\<close>, and a tip without the
  trailer is a legacy branch, which does not conflict.  \<open>create_or_resume\<close> reserves the
  branch and then records the session in the state files (session id and strategy name),
  unless it is there already.  The short hash has 7 characters, as in the tests.
\<close>

definition ErrSessionIDConflict :: error where
  "ErrSessionIDConflict = New ''session ID conflict''"

definition shadow_branch_for :: "hash \<Rightarrow> string" where
  "shadow_branch_for base = ''entire/'' @ take 7 base"

definition EmptyTree :: hash where
  "EmptyTree = ''4b825dc642cb6eb9a060e54bf8d69288fbee4904''"

definition reserve ::
  "(commit \<Rightarrow> hash) \<Rightarrow> repository \<Rightarrow> hash \<Rightarrow> string \<Rightarrow> string \<Rightarrow> error + string \<times> repository" where
  "reserve hash_of repo base session strategy =
     (let branch = shadow_branch_for base in
      case Reference repo (NewBranchReferenceName branch) True of
        Inl err \<Rightarrow>
          (let commit = \<lparr>Message = fullMessage [] [(''Entire-Session'', session),
                                                    (''Entire-Strategy'', strategy)],
                         TreeHash = EmptyTree, ParentHashes = [],
                         AuthorName = [], AuthorEmail = []\<rparr>
           in case SetEncodedObject repo (hash_of commit) commit of
                Inl err \<Rightarrow> Inl err
              | Inr repo' \<Rightarrow>
                  (case SetReference repo' (NewBranchReferenceName branch, Hash (hash_of commit)) of
                     Inl err \<Rightarrow> Inl err
                   | Inr repo'' \<Rightarrow> Inr (branch, repo'')))
      | Inr ref \<Rightarrow>
          (case CommitObject repo (ref_hash ref) of
             Inl err \<Rightarrow> Inl (Wrap ''shadow branch corrupt'' err)
           | Inr tip \<Rightarrow>
               (case ParseSession (Message tip) of
                  None \<Rightarrow> Inr (branch, repo)
                | Some existing \<Rightarrow>
                    if existing = session then Inr (branch, repo)
                    else Inl ErrSessionIDConflict)))"

definition create_or_resume ::
  "(commit \<Rightarrow> hash) \<Rightarrow> (string \<times> string) list \<times> repository \<Rightarrow> hash \<Rightarrow> string \<Rightarrow> string
     \<Rightarrow> error + (string \<times> string) list \<times> repository" where
  "create_or_resume hash_of st base session strategy =
     (case reserve hash_of (snd st) base session strategy of
        Inl err \<Rightarrow> Inl err
      | Inr (branch, repo') \<Rightarrow>
          Inr (if map_of (fst st) session = None then fst st @ [(session, strategy)] else fst st,
               repo'))"

section \<open>Example repositories\<close>

text \<open>
  The repositories of the tests: one with the five branches of \<^verbatim>\<open>TestListShadowBranches\<close>
  beside \<^verbatim>\<open>master\<close>, one with \<^verbatim>\<open>master\<close> only, and one with a commit on \<^verbatim>\<open>main\<close> ahead
  of \<^verbatim>\<open>develop\<close>.
\<close>

definition test_repo :: repository where
  "test_repo = \<lparr> refs = [(''HEAD'', Symbolic ''refs/heads/master''),
       (''refs/heads/entire/abc1234'', Hash ''c0ffee''),
       (''refs/heads/entire/def5678'', Hash ''c0ffee''),
       (''refs/heads/entire/sessions'', Hash ''c0ffee''),
       (''refs/heads/feature/foo'', Hash ''c0ffee''),
       (''refs/heads/main'', Hash ''c0ffee''),
       (''refs/heads/master'', Hash ''c0ffee'')],
     objects = [], refs_unreadable = False, unremovable = [], write_fails = False \<rparr>"

definition plain_repo :: repository where
  "plain_repo = \<lparr> refs = [(''HEAD'', Symbolic ''refs/heads/master''),
       (''refs/heads/master'', Hash ''c0ffee'')],
     objects = [], refs_unreadable = False, unremovable = [], write_fails = False \<rparr>"


definition c0 :: commit where
  "c0 = \<lparr>Message = ''initial commit'', TreeHash = ''t0'', ParentHashes = [],
         AuthorName = ''Test'', AuthorEmail = ''test@example.com''\<rparr>"

definition c1 :: commit where
  "c1 = \<lparr>Message = ''feature commit'', TreeHash = ''t1'', ParentHashes = [''aaaa''],
         AuthorName = ''Test'', AuthorEmail = ''test@example.com''\<rparr>"

definition repo1 :: repository where
  "repo1 = \<lparr>refs = [(''HEAD'', Symbolic ''refs/heads/main''),
                     (''refs/heads/main'', Hash ''bbbb''),
                     (''refs/heads/develop'', Hash ''aaaa'')],
             objects = [(''aaaa'', c0), (''bbbb'', c1)],
             refs_unreadable = False, unremovable = [], write_fails = False\<rparr>"

text \<open>
  On \<^verbatim>\<open>main\<close> with a clean worktree; on a branch \<^verbatim>\<open>feature\<close> at the same commit as
  \<^verbatim>\<open>main\<close>, with a clean worktree; and on it with uncommitted changes.
\<close>

definition merge_base1 :: "string \<Rightarrow> string \<Rightarrow> error + hash" where
  "merge_base1 a b = (if b = ''develop'' then Inr ''aaaa'' else Inr ''bbbb'')"

definition git1 :: git where
  "git1 = \<lparr>IsOnDefaultBranch = Inr (True, ''main''), HasUncommittedChanges = Inr False,
            GetCurrentBranch = Inr ''main'', GetMergeBase = merge_base1\<rparr>"

definition git_feature :: git where
  "git_feature = \<lparr>IsOnDefaultBranch = Inr (False, ''feature''),
            HasUncommittedChanges = Inr False,
            GetCurrentBranch = Inr ''feature'', GetMergeBase = merge_base1\<rparr>"

definition git_dirty :: git where
  "git_dirty = \<lparr>IsOnDefaultBranch = Inr (False, ''feature''),
            HasUncommittedChanges = Inr True,
            GetCurrentBranch = Inr ''feature'', GetMergeBase = merge_base1\<rparr>"


text \<open>
  The inputs of \<^verbatim>\<open>TestCreateSquashedBranch_TrailersAlphabeticalOrder\<close>, and a trailer
  check used as a hypothesis below.
\<close>

definition hash1 :: "commit \<Rightarrow> hash" where
  "hash1 c = ''cccc''"




text \<open>
  Resume scenarios: an agent, metadata trees that are absent, empty, or hold the shard of
  checkpoint \<^verbatim>\<open>000000000000\<close>, a commit stamped with that checkpoint, and a repository
  whose \<^verbatim>\<open>HEAD\<close> is on the stamped commit or on a commit without trailers.
\<close>

definition claude :: agent where
  "claude = \<lparr>AgentName = ''claude-code'',
             GetSessionDir = (\<lambda>cwd. Inr (''/home/user/.claude/projects'' @ cwd)),
             ExtractAgentSessionID = drop 11,
             FormatResumeCommand = (\<lambda>sid. ''claude -r '' @ sid),
             WriteSession_fails = False\<rparr>"

definition no_tree :: "repository \<Rightarrow> error + tree" where
  "no_tree repo = Inl ErrReferenceNotFound"

definition empty_tree :: "repository \<Rightarrow> error + tree" where
  "empty_tree repo = Inr []"

definition shard_tree :: "repository \<Rightarrow> error + tree" where
  "shard_tree repo = Inr [(''00/0000000000'', \<lparr>SessionID = ''2025-01-01-alpha''\<rparr>)]"

definition session_log :: "string \<Rightarrow> error + string" where
  "session_log checkpointID = Inr ''{}''"

definition env_missing :: resume_env where
  "env_missing = \<lparr>GetMetadataBranchTree = empty_tree, GetRemoteMetadataBranchTree = no_tree,
      Detect = Inr claude, Default = Some claude, Getwd = Inr ''/repo'',
      GetSessionLog = session_log, MkdirAll_fails = False\<rparr>"

definition env_present :: resume_env where
  "env_present = \<lparr>GetMetadataBranchTree = shard_tree, GetRemoteMetadataBranchTree = no_tree,
      Detect = Inr claude, Default = Some claude, Getwd = Inr ''/repo'',
      GetSessionLog = session_log, MkdirAll_fails = False\<rparr>"

definition env_remote_empty :: resume_env where
  "env_remote_empty = env_missing\<lparr>GetRemoteMetadataBranchTree := empty_tree\<rparr>"

definition stamped :: commit where
  "stamped = \<lparr>Message = ''Add feature\<newline>\<newline>Entire-Checkpoint: 000000000000\<newline>'',
      TreeHash = ''t2'', ParentHashes = [''aaaa''],
      AuthorName = ''Test'', AuthorEmail = ''test@example.com''\<rparr>"

definition repo_resume :: repository where
  "repo_resume = \<lparr>refs = [(''HEAD'', Symbolic ''refs/heads/feature''),
                     (''refs/heads/main'', Hash ''aaaa''),
                     (''refs/heads/feature'', Hash ''dddd''),
                     (''refs/heads/plain'', Hash ''bbbb'')],
             objects = [(''aaaa'', c0), (''bbbb'', c1), (''dddd'', stamped)],
             refs_unreadable = False, unremovable = [], write_fails = False\<rparr>"

definition repo_plain :: repository where
  "repo_plain = repo_resume\<lparr>refs := [(''HEAD'', Symbolic ''refs/heads/plain''),
                     (''refs/heads/main'', Hash ''aaaa''),
                     (''refs/heads/feature'', Hash ''dddd''),
                     (''refs/heads/plain'', Hash ''bbbb'')]\<rparr>"

definition st0 :: os_state where
  "st0 = \<lparr>stderr = [], files = []\<rparr>"





definition base1 :: hash where
  "base1 = ''1234567890abcdef1234567890abcdef12345678''"

definition orphaned :: commit where
  "orphaned = \<lparr>Message = ''Orphaned checkpoint\<newline>\<newline>Entire-Session: 2025-01-01-alpha\<newline>Entire-Strategy: manual-commit\<newline>'',
       TreeHash = ''t0'', ParentHashes = [],
       AuthorName = ''Test User'', AuthorEmail = ''test@example.com''\<rparr>"

definition legacy :: commit where
  "legacy = \<lparr>Message = ''Legacy checkpoint without session trailer'',
       TreeHash = ''t0'', ParentHashes = [],
       AuthorName = ''Test User'', AuthorEmail = ''test@example.com''\<rparr>"

definition repo_orphaned :: repository where
  "repo_orphaned = \<lparr>refs = [(''HEAD'', Symbolic ''refs/heads/feature/test''),
                     (''refs/heads/feature/test'', Hash base1),
                     (''refs/heads/entire/1234567'', Hash ''eeee'')],
             objects = [(base1, c0), (''eeee'', orphaned)],
             refs_unreadable = False, unremovable = [], write_fails = False\<rparr>"

definition repo_legacy :: repository where
  "repo_legacy = \<lparr>refs = [(''HEAD'', Symbolic ''refs/heads/feature/test''),
                     (''refs/heads/feature/test'', Hash base1),
                     (''refs/heads/entire/1234567'', Hash ''ffff'')],
             objects = [(base1, c0), (''ffff'', legacy)],
             refs_unreadable = False, unremovable = [], write_fails = False\<rparr>"

definition repo_fresh :: repository where
  "repo_fresh = \<lparr>refs = [(''HEAD'', Symbolic ''refs/heads/feature/test''),
                     (''refs/heads/feature/test'', Hash base1)],
             objects = [(base1, c0)],
             refs_unreadable = False, unremovable = [], write_fails = False\<rparr>"

chapter \<open>Properties\<close>

section \<open>The matcher decides the language\<close>

lemma nullable_iff: "nullable r \<longleftrightarrow> [] \<in> lang r"
  by (induction r) (auto simp: lang_cat_def intro: lang_star.intros)

lemma lang_cat_cons:
  "c # w \<in> lang_cat A B \<longleftrightarrow>
     (\<exists>u. c # u \<in> A \<and> (\<exists>v. v \<in> B \<and> w = u @ v)) \<or> ([] \<in> A \<and> c # w \<in> B)"
  unfolding lang_cat_def by (auto simp: Cons_eq_append_conv)

lemma lang_star_cons_aux:
  assumes "x \<in> lang_star A" and "x = c # w"
  shows "\<exists>u v. c # u \<in> A \<and> v \<in> lang_star A \<and> w = u @ v"
  using assms
proof (induction arbitrary: w rule: lang_star.induct)
  case star_empty
  then show ?case by simp
next
  case (star_more u v)
  show ?case
  proof (cases u)
    case Nil
    with star_more show ?thesis by simp
  next
    case (Cons a u')
    with star_more.prems have "a = c" and "w = u' @ v" by simp_all
    with Cons star_more.hyps show ?thesis by blast
  qed
qed

lemma lang_star_cons:
  "c # w \<in> lang_star A \<longleftrightarrow> (\<exists>u v. c # u \<in> A \<and> v \<in> lang_star A \<and> w = u @ v)"
proof
  assume "c # w \<in> lang_star A"
  then show "\<exists>u v. c # u \<in> A \<and> v \<in> lang_star A \<and> w = u @ v"
    by (rule lang_star_cons_aux) simp
next
  assume "\<exists>u v. c # u \<in> A \<and> v \<in> lang_star A \<and> w = u @ v"
  then obtain u v where "c # u \<in> A" "v \<in> lang_star A" "w = u @ v" by blast
  then have "(c # u) @ v \<in> lang_star A" by (intro lang_star.star_more)
  with \<open>w = u @ v\<close> show "c # w \<in> lang_star A" by simp
qed

lemma lang_deriv: "w \<in> lang (deriv c r) \<longleftrightarrow> c # w \<in> lang r"
proof (induction r arbitrary: w)
  case (Cat r s)
  then show ?case
    by (auto simp: lang_cat_cons nullable_iff) (auto simp: lang_cat_def)
next
  case (Star r)
  then show ?case
    by (auto simp: lang_star_cons) (auto simp: lang_cat_def)
qed auto

lemma MatchString_lang: "MatchString r s \<longleftrightarrow> s \<in> lang r"
  by (induction s arbitrary: r) (simp_all add: nullable_iff lang_deriv)

section \<open>The language of the shadow branch pattern\<close>

lemma lang_Literal: "lang (Literal p) = {p}"
proof (induction p)
  case Nil
  show ?case by simp
next
  case (Cons a p)
  have "in_class [(a, a)] c \<longleftrightarrow> c = a" for c
    by auto
  then have "lang (Class [(a, a)]) = {[a]}"
    by simp
  with Cons show ?case
    by (simp add: lang_cat_def)
qed

lemma lang_star_class: "lang_star {[c] | c. P c} = {w. \<forall>c\<in>set w. P c}"
proof (intro set_eqI iffI)
  fix w assume "w \<in> lang_star {[c] | c. P c}"
  then show "w \<in> {w. \<forall>c\<in>set w. P c}"
    by (induction rule: lang_star.induct) auto
next
  fix w assume "w \<in> {w. \<forall>c\<in>set w. P c}"
  then show "w \<in> lang_star {[c] | c. P c}"
  proof (induction w)
    case Nil
    show ?case by (rule lang_star.star_empty)
  next
    case (Cons a w)
    then have "[a] \<in> {[c] | c. P c}" and "w \<in> lang_star {[c] | c. P c}" by auto
    then have "[a] @ w \<in> lang_star {[c] | c. P c}" by (rule lang_star.star_more)
    then show ?case by simp
  qed
qed

lemma lang_AtLeast_class:
  "lang (AtLeast n (Class rs)) = {w. n \<le> length w \<and> (\<forall>c\<in>set w. in_class rs c)}"
proof (induction n)
  case 0
  show ?case by (simp add: lang_star_class)
next
  case (Suc n)
  show ?case
  proof (intro set_eqI iffI)
    fix w assume "w \<in> lang (AtLeast (Suc n) (Class rs))"
    with Suc show "w \<in> {w. Suc n \<le> length w \<and> (\<forall>c\<in>set w. in_class rs c)}"
      by (auto simp: lang_cat_def)
  next
    fix w assume w: "w \<in> {w. Suc n \<le> length w \<and> (\<forall>c\<in>set w. in_class rs c)}"
    then obtain a v where "w = a # v" by (cases w) auto
    with w Suc have "[a] \<in> lang (Class rs)" and "v \<in> lang (AtLeast n (Class rs))" by auto
    then have "[a] @ v \<in> lang_cat (lang (Class rs)) (lang (AtLeast n (Class rs)))"
      unfolding lang_cat_def by blast
    with \<open>w = a # v\<close> show "w \<in> lang (AtLeast (Suc n) (Class rs))" by simp
  qed
qed

lemma char_eq_code: "c = d \<longleftrightarrow> (of_char c :: nat) = of_char d"
  by simp

lemma in_hex_class: "in_class hex_class c \<longleftrightarrow> c \<in> hexdigits"
proof -
  define n where "n = (of_char c :: nat)"
  have "in_class hex_class c \<longleftrightarrow>
      (48 \<le> n \<and> n \<le> 57) \<or> (97 \<le> n \<and> n \<le> 102) \<or> (65 \<le> n \<and> n \<le> 70)"
    by (simp add: hex_class_def less_eq_char_def n_def)
  moreover have "c \<in> hexdigits \<longleftrightarrow>
      n \<in> {48,49,50,51,52,53,54,55,56,57,97,98,99,100,101,102,65,66,67,68,69,70}"
    unfolding hexdigits_def n_def by (simp add: char_eq_code [of c])
  moreover have "(48 \<le> n \<and> n \<le> 57) \<or> (97 \<le> n \<and> n \<le> 102) \<or> (65 \<le> n \<and> n \<le> 70) \<longleftrightarrow>
      n \<in> {48,49,50,51,52,53,54,55,56,57,97,98,99,100,101,102,65,66,67,68,69,70}"
    by (simp; presburger)
  ultimately show ?thesis by blast
qed

lemma lang_shadowBranchPattern:
  "s \<in> lang shadowBranchPattern \<longleftrightarrow>
     (\<exists>h. s = ''entire/'' @ h \<and> 7 \<le> length h \<and> set h \<subseteq> hexdigits)"
proof -
  have "lang shadowBranchPattern =
      lang_cat {''entire/''} {w. 7 \<le> length w \<and> (\<forall>c\<in>set w. c \<in> hexdigits)}"
    unfolding shadowBranchPattern_def
    by (simp only: lang.simps(5) lang_Literal lang_AtLeast_class in_hex_class)
  then show ?thesis
    unfolding lang_cat_def by auto
qed

lemma sessions_not_hex: "\<not> set ''sessions'' \<subseteq> hexdigits"
  by (simp add: hexdigits_def)

text \<open>
  C1.  For every string \<open>s\<close>, \<open>IsShadowBranch s\<close> holds exactly when \<open>s\<close> matches
  \<^verbatim>\<open>^entire/[0-9a-fA-F]{7,}$\<close> and is not \<^verbatim>\<open>entire/sessions\<close>; that is, exactly when \<open>s\<close> is
  \<^verbatim>\<open>entire/\<close> followed by seven or more hexadecimal digits.  In particular it is false for
  \<^verbatim>\<open>entire/\<close>, \<^verbatim>\<open>entire\<close> and \<^verbatim>\<open>entire/sessions\<close>, for every name with fewer than seven
  characters after the prefix, and for every name with a character after the prefix that is
  not a hexadecimal digit.
\<close>

theorem IsShadowBranch_iff_pattern:
  "(IsShadowBranch s \<longleftrightarrow> s \<in> lang shadowBranchPattern \<and> s \<noteq> ''entire/sessions'')
   \<and> (IsShadowBranch s \<longleftrightarrow>
        (\<exists>h. s = ''entire/'' @ h \<and> 7 \<le> length h \<and> set h \<subseteq> hexdigits))
   \<and> \<not> IsShadowBranch ''entire/''
   \<and> \<not> IsShadowBranch ''entire''
   \<and> \<not> IsShadowBranch ''entire/sessions''
   \<and> (length h < 7 \<longrightarrow> \<not> IsShadowBranch (''entire/'' @ h))
   \<and> (\<not> set h \<subseteq> hexdigits \<longrightarrow> \<not> IsShadowBranch (''entire/'' @ h))"
proof -
  have pat: "IsShadowBranch t \<longleftrightarrow> t \<in> lang shadowBranchPattern \<and> t \<noteq> ''entire/sessions''"
    for t
    by (simp add: IsShadowBranch_def MatchString_lang)
  have hex: "IsShadowBranch t \<longleftrightarrow>
      (\<exists>h. t = ''entire/'' @ h \<and> 7 \<le> length h \<and> set h \<subseteq> hexdigits)" for t
  proof
    assume "IsShadowBranch t"
    then show "\<exists>h. t = ''entire/'' @ h \<and> 7 \<le> length h \<and> set h \<subseteq> hexdigits"
      by (simp add: pat lang_shadowBranchPattern)
  next
    assume "\<exists>h. t = ''entire/'' @ h \<and> 7 \<le> length h \<and> set h \<subseteq> hexdigits"
    then obtain h where h: "t = ''entire/'' @ h" "7 \<le> length h" "set h \<subseteq> hexdigits"
      by blast
    then have "t \<in> lang shadowBranchPattern"
      unfolding lang_shadowBranchPattern by blast
    moreover have "t \<noteq> ''entire/sessions''"
      using h sessions_not_hex by auto
    ultimately show "IsShadowBranch t" by (simp add: pat)
  qed
  have short: "\<not> IsShadowBranch (''entire/'' @ k)" if "length k < 7" for k
    using that by (auto simp: hex)
  have nonhex: "\<not> IsShadowBranch (''entire/'' @ k)" if "\<not> set k \<subseteq> hexdigits" for k
    using that by (auto simp: hex)
  have "\<not> IsShadowBranch ''entire/''"
    using short [of "[]"] by simp
  moreover have "\<not> IsShadowBranch ''entire''"
    by (simp add: hex)
  moreover have "\<not> IsShadowBranch ''entire/sessions''"
    by (simp add: IsShadowBranch_def)
  ultimately show ?thesis
    using pat [of s] hex [of s] short [of h] nonhex [of h] by blast
qed

theorem IsShadowBranch_iff_pattern_witness:
  "IsShadowBranch ''entire/abc1234''
   \<and> ''entire/abc1234'' \<in> lang shadowBranchPattern
   \<and> length ''ghij'' < 7
   \<and> \<not> set ''ghij'' \<subseteq> hexdigits
   \<and> \<not> IsShadowBranch ''entire/ghij''"
proof -
  have m: "IsShadowBranch ''entire/abc1234''"
    by (simp add: IsShadowBranch_def shadowBranchPattern_def hex_class_def eval_nat_numeral)
  have g: "\<not> set ''ghij'' \<subseteq> hexdigits"
    by (simp add: hexdigits_def)
  show ?thesis
    using m g IsShadowBranch_iff_pattern [of "''entire/abc1234''" "''ghij''"] by simp
qed

section \<open>Commit messages from prompts\<close>

lemma TrimLeftFunc_length: "length (TrimLeftFunc s f) \<le> length s"
  by (simp add: TrimLeftFunc_def Let_def)

lemma TrimRightFunc_length: "length (TrimRightFunc s f) \<le> length s"
  by (simp add: TrimRightFunc_def Let_def split: prod.splits)

lemma TrimSpace_length: "length (TrimSpace s) \<le> length s"
  unfolding TrimSpace_def TrimFunc_def
  using TrimRightFunc_length [of "TrimLeftFunc s IsSpace" IsSpace] TrimLeftFunc_length [of s IsSpace]
  by linarith

lemma TrimLeftFunc_set: "set (TrimLeftFunc s f) \<subseteq> set s"
  by (auto simp: TrimLeftFunc_def Let_def dest: in_set_dropD)

lemma TrimRightFunc_set: "set (TrimRightFunc s f) \<subseteq> set s"
  by (auto simp: TrimRightFunc_def Let_def split: prod.splits dest: in_set_takeD)

lemma TrimSpace_set: "set (TrimSpace s) \<subseteq> set s"
  unfolding TrimSpace_def TrimFunc_def
  using TrimRightFunc_set [of "TrimLeftFunc s IsSpace" IsSpace] TrimLeftFunc_set [of s IsSpace]
  by blast

lemma strip_first_set: "strip_first ps s = Some s' \<Longrightarrow> set s' \<subseteq> set s"
  by (induction ps) (auto simp: TrimPrefix_def split: if_splits dest: in_set_dropD)

lemma strip_prefixes_set: "set (strip_prefixes s) \<subseteq> set s"
proof (induction s rule: strip_prefixes.induct)
  case (1 cleaned)
  show ?case
  proof (cases "strip_first prefixes cleaned")
    case None
    then show ?thesis by (subst strip_prefixes.simps) simp
  next
    case (Some s')
    with "1.IH" have "set (strip_prefixes s') \<subseteq> set s'" by simp
    moreover from Some have "set s' \<subseteq> set cleaned" by (rule strip_first_set)
    moreover from Some have "strip_prefixes cleaned = strip_prefixes s'"
      by (subst strip_prefixes.simps) simp
    ultimately show ?thesis by simp
  qed
qed

lemma strip_prefixes_no_prefix: "strip_first prefixes (strip_prefixes s) = None"
proof (induction s rule: strip_prefixes.induct)
  case (1 cleaned)
  show ?case
  proof (cases "strip_first prefixes cleaned")
    case None
    then show ?thesis by (subst strip_prefixes.simps) simp
  next
    case (Some s')
    with "1.IH" have "strip_first prefixes (strip_prefixes s') = None" by simp
    moreover from Some have "strip_prefixes cleaned = strip_prefixes s'"
      by (subst strip_prefixes.simps) simp
    ultimately show ?thesis by simp
  qed
qed

lemma TrimSuffix_set: "set (TrimSuffix s x) \<subseteq> set s"
  by (auto simp: TrimSuffix_def dest: in_set_takeD)

lemma ToUpperLatin1_range:
  assumes "r < 256"
  shows "(r < 0x80 \<longrightarrow> ToUpperLatin1 r < 0x80) \<and>
         (0x80 \<le> r \<longrightarrow> 0x80 \<le> ToUpperLatin1 r \<and> ToUpperLatin1 r < 0x800)"
  using assms unfolding ToUpperLatin1_def by auto

lemma byte_less: "byte c < 256"
  unfolding byte_def by simp

lemma ToUpper_of_byte_length:
  "length (ToUpper_of_byte c) = (if byte c < 0x80 then 1 else 2)"
  using ToUpperLatin1_range [OF byte_less [of c]]
  unfolding ToUpper_of_byte_def EncodeRune_def by auto

lemma truncated_length: "length (truncated p) \<le> 72"
proof -
  have "length (TrimSpace (take 72 s)) \<le> 72" for s
    using TrimSpace_length [of "take 72 s"] by simp
  then show ?thesis
    by (simp add: truncated_def Let_def)
qed

lemma truncated_set: "set (truncated p) \<subseteq> set p"
proof -
  let ?c = "TrimSpace (TrimSuffix (strip_prefixes p) ''?'')"
  have c: "set ?c \<subseteq> set p"
    using TrimSpace_set [of "TrimSuffix (strip_prefixes p) ''?''"]
      TrimSuffix_set [of "strip_prefixes p" "''?''"] strip_prefixes_set [of p]
    by blast
  have "set (TrimSpace (take 72 ?c)) \<subseteq> set ?c"
    using TrimSpace_set [of "take 72 ?c"] set_take_subset [of 72 ?c] by blast
  with c show ?thesis
    by (auto simp: truncated_def Let_def)
qed

lemma cleanPromptForCommit_truncated:
  "cleanPromptForCommit p =
     (if truncated p = [] then [] else ToUpper_of_byte (hd (truncated p)) @ tl (truncated p))"
  by (simp add: cleanPromptForCommit_def truncated_def Let_def)

lemma cleanPromptForCommit_length:
  "length (cleanPromptForCommit p) =
     (if truncated p \<noteq> [] \<and> 0x80 \<le> byte (hd (truncated p))
      then length (truncated p) + 1 else length (truncated p))"
  by (cases "truncated p") (simp_all add: cleanPromptForCommit_truncated ToUpper_of_byte_length)

lemma cleanPromptForCommit_le_73: "length (cleanPromptForCommit p) \<le> 73"
  using truncated_length [of p] by (simp add: cleanPromptForCommit_length)

lemma cleanPromptForCommit_ascii_le_72:
  assumes "\<forall>c\<in>set p. byte c < 0x80"
  shows "length (cleanPromptForCommit p) \<le> 72"
proof (cases "truncated p")
  case Nil
  then show ?thesis by (simp add: cleanPromptForCommit_truncated)
next
  case (Cons a t)
  then have "a \<in> set p" using truncated_set [of p] by auto
  with assms have "byte a < 0x80" by blast
  with Cons truncated_length [of p] show ?thesis
    by (simp add: cleanPromptForCommit_length)
qed


text \<open>
  Counted in code points the result stays within 72: the capitalisation replaces one byte
  by one code point, whatever it does to the character that byte was part of.
\<close>

lemma RuneCountInString_le: "RuneCountInString s \<le> length s"
proof (induction s rule: RuneCountInString.induct)
  case (1 s)
  show ?case
  proof (cases "s = []")
    case True
    then show ?thesis by (subst RuneCountInString.simps) simp
  next
    case False
    obtain r sz where d: "DecodeRuneInString s = (r, sz)"
      by (cases "DecodeRuneInString s")
    with False have "1 \<le> sz"
      using DecodeRuneInString_size [of s] by simp
    moreover from "1.IH" [OF False d [symmetric] refl]
    have "RuneCountInString (drop sz s) \<le> length (drop sz s)" .
    moreover have "RuneCountInString s = 1 + RuneCountInString (drop sz s)"
      using False d by (subst RuneCountInString.simps) simp
    ultimately show ?thesis using False by (cases s) auto
  qed
qed

lemma byte_char_of_byte: "n < 256 \<Longrightarrow> byte (char_of_byte n) = n"
proof -
  assume "n < 256"
  have "char_of_byte n = char_of n"
    by (simp add: char_of_byte_def char_of_def bit_iff_odd drop_bit_eq_div)
  with \<open>n < 256\<close> show ?thesis
    by (simp add: byte_def)
qed

lemma DecodeRuneInString_ToUpper:
  "snd (DecodeRuneInString (ToUpper_of_byte c @ rest)) = length (ToUpper_of_byte c)"
proof -
  let ?u = "ToUpperLatin1 (byte c)"
  from ToUpperLatin1_range [OF byte_less [of c]]
  consider (ascii) "byte c < 0x80" "?u < 0x80" | (wide) "0x80 \<le> byte c" "0x80 \<le> ?u" "?u < 0x800"
    by fastforce
  then show ?thesis
  proof cases
    case ascii
    then show ?thesis
      by (simp add: ToUpper_of_byte_def EncodeRune_def byte_char_of_byte)
  next
    case wide
    have d: "?u div 64 < 32" "2 \<le> ?u div 64" using wide by simp_all
    then have b0: "byte (char_of_byte (0xC0 + ?u div 64)) = 0xC0 + ?u div 64"
      by (intro byte_char_of_byte) simp
    have b1: "byte (char_of_byte (0x80 + ?u mod 64)) = 0x80 + ?u mod 64"
      by (intro byte_char_of_byte) simp
    have e: "ToUpper_of_byte c = [char_of_byte (0xC0 + ?u div 64), char_of_byte (0x80 + ?u mod 64)]"
      using wide by (simp add: ToUpper_of_byte_def EncodeRune_def)
    show ?thesis
      unfolding e using d by (simp add: b0 b1 between_def Let_def)
  qed
qed

lemma cleanPromptForCommit_runes: "RuneCountInString (cleanPromptForCommit p) \<le> 72"
proof (cases "truncated p")
  case Nil
  then show ?thesis
    by (simp add: cleanPromptForCommit_truncated) (subst RuneCountInString.simps, simp)
next
  case (Cons a t)
  let ?e = "ToUpper_of_byte a"
  have ne: "?e @ t \<noteq> []"
    using ToUpper_of_byte_length [of a] by (auto split: if_splits)
  obtain r sz where d: "DecodeRuneInString (?e @ t) = (r, sz)"
    by (cases "DecodeRuneInString (?e @ t)")
  with DecodeRuneInString_ToUpper [of a t] have sz: "sz = length ?e" by simp
  have "RuneCountInString (?e @ t) = 1 + RuneCountInString (drop sz (?e @ t))"
    using ne d by (subst RuneCountInString.simps) simp
  also have "drop sz (?e @ t) = t" using sz by simp
  finally have "RuneCountInString (?e @ t) \<le> 1 + length t"
    using RuneCountInString_le [of t] by simp
  moreover have "length t \<le> 71"
    using truncated_length [of p] Cons by simp
  ultimately show ?thesis
    using Cons by (simp add: cleanPromptForCommit_truncated)
qed

text \<open>
  C9.  The description derived from a prompt is meant to be the cleaned prompt, cut to 72
  characters, with its first letter in upper case.  The code cuts \<^verbatim>\<open>cleaned\<close> to 72
  bytes and then replaces its first byte \<open>b\<close> by \<^verbatim>\<open>strings.ToUpper(string(b))\<close>, which is
  two bytes long when \<open>b\<close> is not ASCII.  For the prompt made of the two bytes of U+00E9
  (e with acute accent) and 71 letters a, the result has 73 bytes: the first byte of the
  accented letter re-encoded as U+00C3, its second byte left behind, and 70 letters.
\<close>

theorem cleanPromptForCommit_73_bytes:
  "cleanPromptForCommit ([CHR 0xC3, CHR 0xA9] @ replicate 71 CHR ''a'')
     = [CHR 0xC3, CHR 0x83, CHR 0xA9] @ replicate 70 CHR ''a''
   \<and> length (cleanPromptForCommit ([CHR 0xC3, CHR 0xA9] @ replicate 71 CHR ''a'')) = 73"
  by code_simp

text \<open>
  C10.  \<^verbatim>\<open>generateCommitMessage\<close> never returns the empty string: it returns the cleaned
  prompt when that is not empty, and the fixed message otherwise, as for the empty prompt
  and for a prompt that cleaning empties.
\<close>

theorem generateCommitMessage_nonempty:
  "generateCommitMessage p \<noteq> []
   \<and> generateCommitMessage p =
       (if cleanPromptForCommit p = [] then ''Claude Code session updates''
        else cleanPromptForCommit p)
   \<and> generateCommitMessage [] = ''Claude Code session updates''
   \<and> cleanPromptForCommit ''Please ?'' = []
   \<and> generateCommitMessage ''Please ?'' = ''Claude Code session updates''"
proof -
  have empty: "cleanPromptForCommit [] = []"
    by code_simp
  have polite: "cleanPromptForCommit ''Please ?'' = []"
    by code_simp
  have "generateCommitMessage p \<noteq> []"
    by (simp add: generateCommitMessage_def Let_def)
  moreover have "generateCommitMessage p =
       (if cleanPromptForCommit p = [] then ''Claude Code session updates''
        else cleanPromptForCommit p)"
    using empty by (cases "p = []") (simp_all add: generateCommitMessage_def Let_def)
  moreover have "generateCommitMessage [] = ''Claude Code session updates''"
    by (simp add: generateCommitMessage_def)
  moreover have "generateCommitMessage ''Please ?'' = ''Claude Code session updates''"
    using polite by (simp add: generateCommitMessage_def Let_def)
  ultimately show ?thesis
    using polite by blast
qed

section \<open>Listing and deleting shadow branches\<close>

lemma elems_append_slice: "elems (append_slice s x) = elems s @ [x]"
  by (cases s) simp_all

lemma append_slice_not_nil: "append_slice s x \<noteq> NilSlice"
  by (cases s) simp_all

lemma Slice_elems: "(if s = NilSlice then Slice [] else s) = Slice (elems s)"
  by (cases s) simp_all

lemma shadow_refs_elems:
  "elems (shadow_refs rs sb) = elems sb @ filter IsShadowBranch (local_branches rs)"
  by (induction rs arbitrary: sb) (simp_all add: local_branches_def Let_def elems_append_slice)

lemma HasPrefix_split: "HasPrefix s p \<Longrightarrow> p @ TrimPrefix s p = s"
  unfolding HasPrefix_def TrimPrefix_def by (metis append_take_drop_id)

lemma HasPrefix_append: "HasPrefix (p @ t) p"
  by (simp add: HasPrefix_def)

lemma TrimPrefix_append: "TrimPrefix (p @ t) p = t"
  by (simp add: TrimPrefix_def HasPrefix_def)

lemma local_branches_iff:
  "b \<in> set (local_branches rs) \<longleftrightarrow> NewBranchReferenceName b \<in> fst ` set rs"
proof
  assume "b \<in> set (local_branches rs)"
  then obtain n where n: "n \<in> fst ` set rs" "IsBranch n" "b = TrimPrefix n ''refs/heads/''"
    by (auto simp: local_branches_def)
  then have "''refs/heads/'' @ b = n"
    unfolding IsBranch_def by (simp only: HasPrefix_split)
  with n show "NewBranchReferenceName b \<in> fst ` set rs"
    by (simp only: NewBranchReferenceName_def)
next
  assume a: "NewBranchReferenceName b \<in> fst ` set rs"
  have "IsBranch (NewBranchReferenceName b)"
    and "TrimPrefix (NewBranchReferenceName b) ''refs/heads/'' = b"
    unfolding NewBranchReferenceName_def IsBranch_def
    by (rule HasPrefix_append, rule TrimPrefix_append)
  with a have m: "NewBranchReferenceName b \<in> set (filter IsBranch (map fst rs))"
    and e: "b = (\<lambda>n. TrimPrefix n ''refs/heads/'') (NewBranchReferenceName b)"
    by simp_all
  show "b \<in> set (local_branches rs)"
    unfolding local_branches_def set_map using e m by (rule image_eqI)
qed

text \<open>
  C6.  On a repository that opens and whose references can be listed,
  \<^verbatim>\<open>ListShadowBranches\<close> returns no error and a slice that is not nil and holds exactly the
  local branch names that satisfy \<open>IsShadowBranch\<close>, in the order of the references.  On
  the branches \<^verbatim>\<open>entire/abc1234\<close>, \<^verbatim>\<open>entire/def5678\<close>, \<^verbatim>\<open>entire/sessions\<close>,
  \<^verbatim>\<open>feature/foo\<close>, \<^verbatim>\<open>main\<close> it returns the first two, and with no shadow branch it returns
  the empty slice.
\<close>

theorem ListShadowBranches_exact:
  assumes "OpenRepository w = Inr repo" and "References repo = Inr rs"
  shows "ListShadowBranches w = (Slice (filter IsShadowBranch (local_branches rs)), None)
         \<and> fst (ListShadowBranches w) \<noteq> NilSlice
         \<and> set (elems (fst (ListShadowBranches w)))
             = {b. IsShadowBranch b \<and> NewBranchReferenceName b \<in> fst ` set rs}"
proof -
  have eq: "ListShadowBranches w = (Slice (filter IsShadowBranch (local_branches rs)), None)"
    using assms
    by (simp add: ListShadowBranches_def Let_def Slice_elems shadow_refs_elems)
  moreover have "set (filter IsShadowBranch (local_branches rs))
      = {b. IsShadowBranch b \<and> NewBranchReferenceName b \<in> fst ` set rs}"
    by (auto simp: local_branches_iff)
  ultimately show ?thesis by simp
qed

theorem ListShadowBranches_exact_witness:
  "OpenRepository (Some test_repo) = Inr test_repo
   \<and> References test_repo = Inr (refs test_repo)
   \<and> ListShadowBranches (Some test_repo) = (Slice [''entire/abc1234'', ''entire/def5678''], None)
   \<and> OpenRepository (Some plain_repo) = Inr plain_repo
   \<and> References plain_repo = Inr (refs plain_repo)
   \<and> ListShadowBranches (Some plain_repo) = (Slice [], None)"
proof -
  have o: "OpenRepository (Some test_repo) = Inr test_repo"
    and r: "References test_repo = Inr (refs test_repo)"
    and o': "OpenRepository (Some plain_repo) = Inr plain_repo"
    and r': "References plain_repo = Inr (refs plain_repo)"
    by (simp_all add: OpenRepository_def References_def test_repo_def plain_repo_def)
  have f: "filter IsShadowBranch (local_branches (refs test_repo))
      = [''entire/abc1234'', ''entire/def5678'']"
    by code_simp
  have f': "filter IsShadowBranch (local_branches (refs plain_repo)) = []"
    by code_simp
  show ?thesis
    using ListShadowBranches_exact [OF o r] ListShadowBranches_exact [OF o' r'] o r o' r'
    by (simp add: f f')
qed

lemma delete_refs_partition:
  "delete_refs repo bs deleted failed = (deleted', failed', repo') \<Longrightarrow>
     mset (elems deleted') + mset (elems failed')
       = mset (elems deleted) + mset (elems failed) + mset bs"
proof (induction bs arbitrary: repo deleted failed)
  case Nil
  then show ?case by simp
next
  case (Cons b bs)
  then show ?case
    by (auto simp: Let_def elems_append_slice split: sum.splits)
qed

lemma DeleteShadowBranches_partition:
  assumes "DeleteShadowBranches (Some repo) branches = ((deleted, failed, err), w')"
  shows "err = None \<and> mset (elems deleted) + mset (elems failed) = mset (elems branches)"
proof (cases "len branches = 0")
  case True
  with assms show ?thesis
    by (auto simp: DeleteShadowBranches_def len_def)
next
  case False
  with assms obtain repo' where
    "delete_refs repo (elems branches) NilSlice NilSlice = (deleted, failed, repo')" and "err = None"
    by (auto simp: DeleteShadowBranches_def OpenRepository_def split: prod.splits)
  with delete_refs_partition [of repo "elems branches" NilSlice NilSlice deleted failed repo']
  show ?thesis by simp
qed

text \<open>
  C5.  \<^verbatim>\<open>DeleteShadowBranches\<close> attempts every name and splits the names between its two
  results (\<open>DeleteShadowBranches_partition\<close>), but the results are not always non-nil:
  \<^verbatim>\<open>deleted\<close> and \<^verbatim>\<open>failed\<close> start as nil slices and only \<^verbatim>\<open>append\<close> allocates them.
  When the only deletion fails, as in \<^verbatim>\<open>TestDeleteShadowBranches_NonExistent\<close>, \<^verbatim>\<open>deleted\<close>
  is nil; when every deletion succeeds, \<^verbatim>\<open>failed\<close> is nil.  Only the empty input returns
  two empty slices.
\<close>

theorem DeleteShadowBranches_nil_results:
  "fst (DeleteShadowBranches (Some plain_repo) (Slice [''entire/doesnotexist'']))
     = (NilSlice, Slice [''entire/doesnotexist''], None)
   \<and> fst (DeleteShadowBranches (Some test_repo) (Slice [''entire/abc1234'', ''entire/def5678'']))
     = (Slice [''entire/abc1234'', ''entire/def5678''], NilSlice, None)
   \<and> fst (DeleteShadowBranches (Some plain_repo) (Slice [])) = (Slice [], Slice [], None)"
  by code_simp

section \<open>The preconditions of summarize\<close>

lemma ValidateSummarize_error_default:
  "\<not> skip \<Longrightarrow> IsOnDefaultBranch g = Inr (True, b) \<Longrightarrow> ValidateSummarize g w t skip \<noteq> None"
  by (simp add: ValidateSummarize_def)

lemma ValidateSummarize_error_target:
  "BranchExists w t = Inr False \<Longrightarrow> ValidateSummarize g w t skip \<noteq> None"
  by (simp add: ValidateSummarize_def split: sum.splits prod.splits)

lemma ValidateSummarize_error_dirty:
  "HasUncommittedChanges g = Inr True \<Longrightarrow> ValidateSummarize g w t skip \<noteq> None"
  by (simp add: ValidateSummarize_def split: sum.splits prod.splits)

lemma ValidateSummarize_error_nothing:
  "GetCurrentBranch g = Inr cur \<Longrightarrow> GetMergeBase g cur t = Inr mb \<Longrightarrow>
   OpenRepository w = Inr repo \<Longrightarrow> Head repo = Inr head \<Longrightarrow>
   CountCommitsBetween w mb (ref_hash head) = Inr 0 \<Longrightarrow>
   ValidateSummarize g w t skip \<noteq> None"
  by (simp add: ValidateSummarize_def split: sum.splits prod.splits)

lemma ValidateSummarize_nil:
  assumes "ValidateSummarize g w t skip = None"
  shows "(skip \<or> (\<exists>b. IsOnDefaultBranch g = Inr (False, b)))
         \<and> BranchExists w t = Inr True
         \<and> HasUncommittedChanges g = Inr False
         \<and> (\<exists>cur mb repo head n.
               GetCurrentBranch g = Inr cur \<and> GetMergeBase g cur t = Inr mb \<and>
               OpenRepository w = Inr repo \<and> Head repo = Inr head \<and>
               CountCommitsBetween w mb (ref_hash head) = Inr n \<and> 0 < n)"
  using assms
  by (auto simp: ValidateSummarize_def split: sum.splits prod.splits if_splits option.splits)


lemma preorder_start:
  "map_of objs h = Some c \<Longrightarrow> \<exists>cs err. preorder objs [[h]] [] = (h # cs, err)"
  by (subst preorder.simps) (simp add: Let_def)

lemma count_until_ge: "count_until from cs err n = Inr m \<Longrightarrow> n \<le> m"
proof (induction cs arbitrary: n)
  case Nil
  then show ?case by (simp split: option.splits)
next
  case (Cons c cs)
  show ?case
  proof (cases "c = from")
    case True
    with Cons.prems show ?thesis by simp
  next
    case False
    with Cons.prems have "count_until from cs err (n + 1) = Inr m" by simp
    from Cons.IH [OF this] show ?thesis by simp
  qed
qed

text \<open>
  The count is zero exactly when the walk meets \<^verbatim>\<open>from\<close> at once, that is when \<^verbatim>\<open>to\<close>
  is \<^verbatim>\<open>from\<close>: in \<^verbatim>\<open>ValidateSummarize\<close>, when \<^verbatim>\<open>HEAD\<close> is the merge base.
\<close>

lemma CountCommitsBetween_zero:
  "CountCommitsBetween w from to = Inr 0 \<longleftrightarrow>
     (\<exists>repo c. OpenRepository w = Inr repo \<and> CommitObject repo to = Inr c \<and> to = from)"
proof (cases "OpenRepository w")
  case (Inl e)
  then show ?thesis by (simp add: CountCommitsBetween_def)
next
  case (Inr repo)
  show ?thesis
  proof (cases "CommitObject repo to")
    case (Inl e)
    with Inr show ?thesis by (simp add: CountCommitsBetween_def)
  next
    case c: (Inr c)
    then have "map_of (objects repo) to = Some c"
      by (simp add: CommitObject_def split: option.splits)
    from preorder_start [OF this] obtain cs err
      where p: "NewCommitPreorderIter repo to = (to # cs, err)"
      unfolding NewCommitPreorderIter_def by blast
    have "count_until from cs err 1 \<noteq> Inr 0"
      using count_until_ge [of "from" cs err 1 0] by auto
    with Inr c p show ?thesis
      by (simp add: CountCommitsBetween_def)
  qed
qed

text \<open>
  C8, as amended.  \<^verbatim>\<open>ValidateSummarize\<close> returns an error whenever the target branch does
  not exist, the worktree has uncommitted changes, or no commit lies between the merge base
  and \<^verbatim>\<open>HEAD\<close>; it returns an error on the default branch when
  \<^verbatim>\<open>skipDefaultBranchCheck\<close> is false, which is how \<^verbatim>\<open>runSummarize\<close> calls it.  It returns
  nil only when none of these holds, the default branch apart when the check is skipped.
\<close>

theorem ValidateSummarize_checks:
  "(\<not> skip \<and> IsOnDefaultBranch g = Inr (True, b) \<longrightarrow> ValidateSummarize g w t skip \<noteq> None)
   \<and> (BranchExists w t = Inr False \<longrightarrow> ValidateSummarize g w t skip \<noteq> None)
   \<and> (HasUncommittedChanges g = Inr True \<longrightarrow> ValidateSummarize g w t skip \<noteq> None)
   \<and> (GetCurrentBranch g = Inr cur \<and> GetMergeBase g cur t = Inr mb \<and>
        OpenRepository w = Inr repo \<and> Head repo = Inr head \<and>
        CountCommitsBetween w mb (ref_hash head) = Inr 0
        \<longrightarrow> ValidateSummarize g w t skip \<noteq> None)
   \<and> (ValidateSummarize g w t skip = None \<longrightarrow>
        (skip \<or> (\<exists>b'. IsOnDefaultBranch g = Inr (False, b')))
        \<and> BranchExists w t = Inr True
        \<and> HasUncommittedChanges g = Inr False
        \<and> (\<exists>cur' mb' repo' head' n.
              GetCurrentBranch g = Inr cur' \<and> GetMergeBase g cur' t = Inr mb' \<and>
              OpenRepository w = Inr repo' \<and> Head repo' = Inr head' \<and>
              CountCommitsBetween w mb' (ref_hash head') = Inr n \<and> 0 < n))"
proof (intro conjI impI)
  assume "\<not> skip \<and> IsOnDefaultBranch g = Inr (True, b)"
  then show "ValidateSummarize g w t skip \<noteq> None"
    using ValidateSummarize_error_default by blast
next
  assume "BranchExists w t = Inr False"
  then show "ValidateSummarize g w t skip \<noteq> None"
    by (rule ValidateSummarize_error_target)
next
  assume "HasUncommittedChanges g = Inr True"
  then show "ValidateSummarize g w t skip \<noteq> None"
    by (rule ValidateSummarize_error_dirty)
next
  assume "GetCurrentBranch g = Inr cur \<and> GetMergeBase g cur t = Inr mb \<and>
        OpenRepository w = Inr repo \<and> Head repo = Inr head \<and>
        CountCommitsBetween w mb (ref_hash head) = Inr 0"
  then show "ValidateSummarize g w t skip \<noteq> None"
    using ValidateSummarize_error_nothing by blast
next
  assume n: "ValidateSummarize g w t skip = None"
  from ValidateSummarize_nil [OF n]
  show "skip \<or> (\<exists>b'. IsOnDefaultBranch g = Inr (False, b'))"
    and "BranchExists w t = Inr True"
    and "HasUncommittedChanges g = Inr False"
    and "\<exists>cur' mb' repo' head' n.
              GetCurrentBranch g = Inr cur' \<and> GetMergeBase g cur' t = Inr mb' \<and>
              OpenRepository w = Inr repo' \<and> Head repo' = Inr head' \<and>
              CountCommitsBetween w mb' (ref_hash head') = Inr n \<and> 0 < n"
    by blast+
qed

theorem ValidateSummarize_checks_witness:
  "IsOnDefaultBranch git1 = Inr (True, ''main'')
   \<and> ValidateSummarize git1 (Some repo1) ''develop'' False \<noteq> None
   \<and> BranchExists (Some repo1) ''nonexistent'' = Inr False
   \<and> ValidateSummarize git_feature (Some repo1) ''nonexistent'' False \<noteq> None
   \<and> HasUncommittedChanges git_dirty = Inr True
   \<and> ValidateSummarize git_dirty (Some repo1) ''develop'' False \<noteq> None
   \<and> CountCommitsBetween (Some repo1) ''bbbb'' ''bbbb'' = Inr 0
   \<and> ValidateSummarize git_feature (Some repo1) ''main'' False \<noteq> None
   \<and> ValidateSummarize git_feature (Some repo1) ''develop'' False = None
   \<and> BranchExists (Some repo1) ''develop'' = Inr True
   \<and> HasUncommittedChanges git_feature = Inr False"
proof -
  have d: "IsOnDefaultBranch git1 = Inr (True, ''main'')"
    by (simp add: git1_def)
  have t: "BranchExists (Some repo1) ''nonexistent'' = Inr False"
    by code_simp
  have u: "HasUncommittedChanges git_dirty = Inr True"
    by (simp add: git_dirty_def)
  have z0: "CountCommitsBetween (Some repo1) ''bbbb'' ''bbbb'' = Inr 0"
    by code_simp
  have z: "GetCurrentBranch git_feature = Inr ''feature''
      \<and> GetMergeBase git_feature ''feature'' ''main'' = Inr ''bbbb''
      \<and> OpenRepository (Some repo1) = Inr repo1
      \<and> Head repo1 = Inr (''refs/heads/main'', Hash ''bbbb'')
      \<and> CountCommitsBetween (Some repo1) ''bbbb'' (ref_hash (''refs/heads/main'', Hash ''bbbb''))
          = Inr 0"
    by code_simp
  have ok: "ValidateSummarize git_feature (Some repo1) ''develop'' False = None"
    by code_simp
  have w1: "ValidateSummarize git1 (Some repo1) ''develop'' False \<noteq> None"
    by (rule ValidateSummarize_checks [THEN conjunct1, rule_format]) (simp add: d)
  have w2: "ValidateSummarize git_feature (Some repo1) ''nonexistent'' False \<noteq> None"
    by (rule ValidateSummarize_checks [THEN conjunct2, THEN conjunct1, rule_format]) (rule t)
  have w3: "ValidateSummarize git_dirty (Some repo1) ''develop'' False \<noteq> None"
    by (rule ValidateSummarize_checks
          [THEN conjunct2, THEN conjunct2, THEN conjunct1, rule_format]) (rule u)
  have w4: "ValidateSummarize git_feature (Some repo1) ''main'' False \<noteq> None"
    by (rule ValidateSummarize_checks
          [THEN conjunct2, THEN conjunct2, THEN conjunct2, THEN conjunct1, rule_format])
       (rule z)
  note w5 = ValidateSummarize_checks
          [THEN conjunct2, THEN conjunct2, THEN conjunct2, THEN conjunct2, rule_format, OF ok]
  from w5 have e: "BranchExists (Some repo1) ''develop'' = Inr True"
    and h: "HasUncommittedChanges git_feature = Inr False"
    by blast+
  from d w1 t w2 u w3 z0 w4 ok e h show ?thesis
    by (intro conjI)
qed

text \<open>
  The claim as stated fails when the check of the default branch is skipped: on \<^verbatim>\<open>main\<close>,
  with a clean worktree and a commit ahead of the target \<^verbatim>\<open>develop\<close>,
  \<^verbatim>\<open>ValidateSummarize("develop", true)\<close> returns nil.
\<close>

theorem ValidateSummarize_skip_counterexample:
  "IsOnDefaultBranch git1 = Inr (True, ''main'')
   \<and> ValidateSummarize git1 (Some repo1) ''develop'' True = None"
  by code_simp

section \<open>Trailers of the squashed commit\<close>
























section \<open>Resume without metadata\<close>

lemma Fprintf_files: "files (Fprintf st text) = files st"
  by (simp add: Fprintf_def)

lemma Fprintf_stderr: "stderr (Fprintf st text) = stderr st @ [text]"
  by (simp add: Fprintf_def)

lemma checkRemoteMetadata_result:
  "fst (checkRemoteMetadata env repo checkpointID st) = None
   \<and> files (snd (checkRemoteMetadata env repo checkpointID st)) = files st"
  by (simp add: checkRemoteMetadata_def Fprintf_files split: sum.splits)

lemma checkRemoteMetadata_stderr:
  "stderr (snd (checkRemoteMetadata env repo checkpointID st)) = stderr st @
     (case GetRemoteMetadataBranchTree env repo of
        Inl e \<Rightarrow>
          [''Checkpoint '' @ quoted checkpointID
             @ '' found in commit but session metadata not available\<newline>'',
           ''The entire/sessions branch may not exist locally or on the remote.\<newline>'']
      | Inr remoteTree \<Rightarrow>
          (case ReadCheckpointMetadata remoteTree (CheckpointPath checkpointID) of
             Inl e \<Rightarrow>
               [''Checkpoint '' @ quoted checkpointID
                  @ '' found in commit but session metadata not available\<newline>'']
           | Inr m \<Rightarrow>
               [''Checkpoint '' @ quoted checkpointID
                  @ '' found in commit but session metadata not available locally\<newline>'',
                ''The metadata exists on origin. To fetch it, run:\<newline>'',
                ''  git fetch origin entire/sessions:entire/sessions\<newline>'',
                ''\<newline>Then run this command again.\<newline>'']))"
  by (simp add: checkRemoteMetadata_def Fprintf_stderr split: sum.splits)

text \<open>
  C7.  On a branch whose tip commit has no \<^verbatim>\<open>Entire-Checkpoint\<close> trailer, or whose trailer
  names a checkpoint without a metadata record in the local metadata tree, resume returns
  nil, leaves the session files as they are, and writes to standard error exactly the
  lines of the case at hand: without trailer, that no checkpoint was found for the last
  commit on the branch, and the commit; with a checkpoint whose record is missing on the
  remote metadata branch too, that the checkpoint was found but the session metadata is
  not available (and, when the remote branch cannot be read at all, that the branch may
  not exist); with a record on the remote only, how to fetch it.  The statement is about
  \<^verbatim>\<open>resumeFromCurrentBranch\<close>, which \<^verbatim>\<open>runResume\<close> reaches once it is on the branch.
\<close>

theorem resume_informational:
  assumes "OpenRepository w = Inr repo"
    and "Head repo = Inr head"
    and "CommitObject repo (ref_hash head) = Inr commit"
    and "ParseCheckpoint (Message commit) = None \<or>
         (\<exists>checkpointID. ParseCheckpoint (Message commit) = Some checkpointID \<and>
            ((\<exists>e. GetMetadataBranchTree env repo = Inl e) \<or>
             (\<exists>t e. GetMetadataBranchTree env repo = Inr t \<and>
                    ReadCheckpointMetadata t (CheckpointPath checkpointID) = Inl e)))"
  shows "fst (resumeFromCurrentBranch env w branchName st) = None
         \<and> files (snd (resumeFromCurrentBranch env w branchName st)) = files st
         \<and> (ParseCheckpoint (Message commit) = None \<longrightarrow>
              stderr (snd (resumeFromCurrentBranch env w branchName st)) = stderr st @
                [''No Entire checkpoint found for the last commit on branch ''
                   @ quoted branchName @ ''\<newline>'',
                 ''Commit: '' @ take 7 (ref_hash head) @ '' '' @ firstLine (Message commit)
                   @ ''\<newline>''])
         \<and> (\<forall>checkpointID. ParseCheckpoint (Message commit) = Some checkpointID \<longrightarrow>
              ((\<exists>e. GetRemoteMetadataBranchTree env repo = Inl e) \<longrightarrow>
                 stderr (snd (resumeFromCurrentBranch env w branchName st)) = stderr st @
                   [''Checkpoint '' @ quoted checkpointID
                      @ '' found in commit but session metadata not available\<newline>'',
                    ''The entire/sessions branch may not exist locally or on the remote.\<newline>''])
              \<and> (\<forall>remoteTree. GetRemoteMetadataBranchTree env repo = Inr remoteTree \<longrightarrow>
                   ((\<exists>e. ReadCheckpointMetadata remoteTree (CheckpointPath checkpointID) = Inl e) \<longrightarrow>
                      stderr (snd (resumeFromCurrentBranch env w branchName st)) = stderr st @
                        [''Checkpoint '' @ quoted checkpointID
                           @ '' found in commit but session metadata not available\<newline>''])
                   \<and> ((\<exists>m. ReadCheckpointMetadata remoteTree (CheckpointPath checkpointID) = Inr m) \<longrightarrow>
                      stderr (snd (resumeFromCurrentBranch env w branchName st)) = stderr st @
                        [''Checkpoint '' @ quoted checkpointID
                           @ '' found in commit but session metadata not available locally\<newline>'',
                         ''The metadata exists on origin. To fetch it, run:\<newline>'',
                         ''  git fetch origin entire/sessions:entire/sessions\<newline>'',
                         ''\<newline>Then run this command again.\<newline>''])))"
proof -
  let ?r = "resumeFromCurrentBranch env w branchName st"
  from assms(4) consider
      (none) "ParseCheckpoint (Message commit) = None"
    | (missing) checkpointID where "ParseCheckpoint (Message commit) = Some checkpointID"
        and "?r = checkRemoteMetadata env repo checkpointID st"
    using assms(1-3) by (auto simp: resumeFromCurrentBranch_def)
  then show ?thesis
  proof cases
    case none
    with assms(1-3) show ?thesis
      by (simp add: resumeFromCurrentBranch_def Fprintf_files Fprintf_stderr)
  next
    case missing
    note r = checkRemoteMetadata_result [of env repo checkpointID st]
    note s = checkRemoteMetadata_stderr [of env repo checkpointID st]
    from missing r have "fst ?r = None" and "files (snd ?r) = files st"
      by simp_all
    moreover from missing s have "\<forall>c. ParseCheckpoint (Message commit) = Some c \<longrightarrow>
        stderr (snd ?r) = stderr st @
          (case GetRemoteMetadataBranchTree env repo of
             Inl e \<Rightarrow>
               [''Checkpoint '' @ quoted c
                  @ '' found in commit but session metadata not available\<newline>'',
                ''The entire/sessions branch may not exist locally or on the remote.\<newline>'']
           | Inr remoteTree \<Rightarrow>
               (case ReadCheckpointMetadata remoteTree (CheckpointPath c) of
                  Inl e \<Rightarrow>
                    [''Checkpoint '' @ quoted c
                       @ '' found in commit but session metadata not available\<newline>'']
                | Inr m \<Rightarrow>
                    [''Checkpoint '' @ quoted c
                       @ '' found in commit but session metadata not available locally\<newline>'',
                     ''The metadata exists on origin. To fetch it, run:\<newline>'',
                     ''  git fetch origin entire/sessions:entire/sessions\<newline>'',
                     ''\<newline>Then run this command again.\<newline>'']))"
      by simp
    ultimately show ?thesis
      using missing(1) by (auto split: sum.splits)
  qed
qed

theorem resume_informational_witness:
  "OpenRepository (Some repo_plain) = Inr repo_plain
   \<and> Head repo_plain = Inr (''refs/heads/plain'', Hash ''bbbb'')
   \<and> CommitObject repo_plain ''bbbb'' = Inr c1
   \<and> ParseCheckpoint (Message c1) = None
   \<and> fst (resumeFromCurrentBranch env_present (Some repo_plain) ''plain'' st0) = None
   \<and> files (snd (resumeFromCurrentBranch env_present (Some repo_plain) ''plain'' st0)) = []
   \<and> stderr (snd (resumeFromCurrentBranch env_present (Some repo_plain) ''plain'' st0))
       = [''No Entire checkpoint found for the last commit on branch 'plain'\<newline>'',
          ''Commit: bbbb feature commit\<newline>'']
   \<and> OpenRepository (Some repo_resume) = Inr repo_resume
   \<and> Head repo_resume = Inr (''refs/heads/feature'', Hash ''dddd'')
   \<and> CommitObject repo_resume ''dddd'' = Inr stamped
   \<and> ParseCheckpoint (Message stamped) = Some ''000000000000''
   \<and> GetMetadataBranchTree env_missing repo_resume = Inr []
   \<and> ReadCheckpointMetadata [] (CheckpointPath ''000000000000'') = Inl ErrObjectNotFound
   \<and> GetRemoteMetadataBranchTree env_missing repo_resume = Inl ErrReferenceNotFound
   \<and> fst (resumeFromCurrentBranch env_missing (Some repo_resume) ''feature'' st0) = None
   \<and> files (snd (resumeFromCurrentBranch env_missing (Some repo_resume) ''feature'' st0)) = []
   \<and> stderr (snd (resumeFromCurrentBranch env_missing (Some repo_resume) ''feature'' st0))
       = [''Checkpoint '000000000000' found in commit but session metadata not available\<newline>'',
          ''The entire/sessions branch may not exist locally or on the remote.\<newline>'']
   \<and> GetMetadataBranchTree env_remote_empty repo_resume = Inr []
   \<and> GetRemoteMetadataBranchTree env_remote_empty repo_resume = Inr []
   \<and> fst (resumeFromCurrentBranch env_remote_empty (Some repo_resume) ''feature'' st0) = None
   \<and> files (snd (resumeFromCurrentBranch env_remote_empty (Some repo_resume) ''feature'' st0)) = []
   \<and> stderr (snd (resumeFromCurrentBranch env_remote_empty (Some repo_resume) ''feature'' st0))
       = [''Checkpoint '000000000000' found in commit but session metadata not available\<newline>'']
   \<and> files (snd (resumeFromCurrentBranch env_present (Some repo_resume) ''feature'' st0))
       = [(''/home/user/.claude/projects/repo/alpha.jsonl'', ''{}'')]"
proof -
  have o1: "OpenRepository (Some repo_plain) = Inr repo_plain"
    and h1: "Head repo_plain = Inr (''refs/heads/plain'', Hash ''bbbb'')"
    and c1: "CommitObject repo_plain ''bbbb'' = Inr c1"
    and p1: "ParseCheckpoint (Message c1) = None"
    by code_simp+
  have o2: "OpenRepository (Some repo_resume) = Inr repo_resume"
    and h2: "Head repo_resume = Inr (''refs/heads/feature'', Hash ''dddd'')"
    and c2: "CommitObject repo_resume ''dddd'' = Inr stamped"
    and p2: "ParseCheckpoint (Message stamped) = Some ''000000000000''"
    and t2: "GetMetadataBranchTree env_missing repo_resume = Inr []"
    and m2: "ReadCheckpointMetadata [] (CheckpointPath ''000000000000'') = Inl ErrObjectNotFound"
    and r2: "GetRemoteMetadataBranchTree env_missing repo_resume = Inl ErrReferenceNotFound"
    and t3: "GetMetadataBranchTree env_remote_empty repo_resume = Inr []"
    and r3: "GetRemoteMetadataBranchTree env_remote_empty repo_resume = Inr []"
    by code_simp+
  have f0: "files st0 = []" and e0: "stderr st0 = []"
    by (simp_all add: st0_def)
  have l1: "take 7 (ref_hash (''refs/heads/plain'', Hash ''bbbb'')) = ''bbbb''"
    and l2: "firstLine (Message c1) = ''feature commit''"
    by code_simp+
  have restored: "files (snd (resumeFromCurrentBranch env_present (Some repo_resume) ''feature'' st0))
       = [(''/home/user/.claude/projects/repo/alpha.jsonl'', ''{}'')]"
    by code_simp
  note a1 = resume_informational [of "Some repo_plain" repo_plain "(''refs/heads/plain'', Hash ''bbbb'')"
        c1 env_present "''plain''" st0]
  note a2 = resume_informational [of "Some repo_resume" repo_resume
        "(''refs/heads/feature'', Hash ''dddd'')" stamped env_missing "''feature''" st0]
  note a3 = resume_informational [of "Some repo_resume" repo_resume
        "(''refs/heads/feature'', Hash ''dddd'')" stamped env_remote_empty "''feature''" st0]
  have b1: "fst (resumeFromCurrentBranch env_present (Some repo_plain) ''plain'' st0) = None
      \<and> files (snd (resumeFromCurrentBranch env_present (Some repo_plain) ''plain'' st0)) = []
      \<and> stderr (snd (resumeFromCurrentBranch env_present (Some repo_plain) ''plain'' st0))
          = [''No Entire checkpoint found for the last commit on branch 'plain'\<newline>'',
             ''Commit: bbbb feature commit\<newline>'']"
    using a1 o1 h1 c1 p1 f0 e0 l1 l2 by (simp add: quoted_def)
  have b2: "fst (resumeFromCurrentBranch env_missing (Some repo_resume) ''feature'' st0) = None
      \<and> files (snd (resumeFromCurrentBranch env_missing (Some repo_resume) ''feature'' st0)) = []
      \<and> stderr (snd (resumeFromCurrentBranch env_missing (Some repo_resume) ''feature'' st0))
          = [''Checkpoint '000000000000' found in commit but session metadata not available\<newline>'',
             ''The entire/sessions branch may not exist locally or on the remote.\<newline>'']"
    using a2 o2 h2 c2 p2 t2 m2 r2 f0 e0 by (simp add: quoted_def)
  have b3: "fst (resumeFromCurrentBranch env_remote_empty (Some repo_resume) ''feature'' st0) = None
      \<and> files (snd (resumeFromCurrentBranch env_remote_empty (Some repo_resume) ''feature'' st0)) = []
      \<and> stderr (snd (resumeFromCurrentBranch env_remote_empty (Some repo_resume) ''feature'' st0))
          = [''Checkpoint '000000000000' found in commit but session metadata not available\<newline>'']"
    using a3 o2 h2 c2 p2 t3 r3 m2 f0 e0 by (simp add: quoted_def)
  from o1 h1 c1 p1 b1 o2 h2 c2 p2 t2 m2 r2 b2 t3 r3 b3 restored show ?thesis
    by (intro conjI) simp_all
qed

section \<open>Attribution records\<close>










section \<open>Session conflicts\<close>

text \<open>
  C3.  On a base commit whose shadow branch tip carries an \<^verbatim>\<open>Entire-Session\<close> trailer,
  starting a session with another id fails with the session conflict error, whatever the
  session state files hold (also when they are gone); starting the session the trailer
  names succeeds; and when the tip carries no such trailer, starting any session
  succeeds.
\<close>

theorem session_conflict:
  assumes "Reference repo (NewBranchReferenceName (shadow_branch_for base)) True = Inr ref"
    and "CommitObject repo (ref_hash ref) = Inr tip"
  shows "(ParseSession (Message tip) = Some other \<and> other \<noteq> session \<longrightarrow>
            create_or_resume hash_of (state_files, repo) base session strategy = Inl ErrSessionIDConflict)
         \<and> (ParseSession (Message tip) = Some session \<longrightarrow>
            (\<exists>st. create_or_resume hash_of (state_files, repo) base session strategy = Inr st))
         \<and> (ParseSession (Message tip) = None \<longrightarrow>
            (\<exists>st. create_or_resume hash_of (state_files, repo) base session strategy = Inr st))"
  using assms by (simp add: create_or_resume_def reserve_def Let_def)

theorem session_conflict_witness:
  "Reference repo_orphaned (NewBranchReferenceName (shadow_branch_for base1)) True
     = Inr (''refs/heads/entire/1234567'', Hash ''eeee'')
   \<and> CommitObject repo_orphaned ''eeee'' = Inr orphaned
   \<and> ParseSession (Message orphaned) = Some ''2025-01-01-alpha''
   \<and> create_or_resume hash1 ([], repo_orphaned) base1 ''2025-01-01-beta'' ''manual-commit''
       = Inl ErrSessionIDConflict
   \<and> (\<exists>st. create_or_resume hash1 ([], repo_orphaned) base1 ''2025-01-01-alpha''
              ''manual-commit'' = Inr st)
   \<and> Reference repo_legacy (NewBranchReferenceName (shadow_branch_for base1)) True
     = Inr (''refs/heads/entire/1234567'', Hash ''ffff'')
   \<and> CommitObject repo_legacy ''ffff'' = Inr legacy
   \<and> ParseSession (Message legacy) = None
   \<and> (\<exists>st. create_or_resume hash1 ([], repo_legacy) base1 ''2025-01-01-beta''
              ''manual-commit'' = Inr st)"
proof -
  have r1: "Reference repo_orphaned (NewBranchReferenceName (shadow_branch_for base1)) True
     = Inr (''refs/heads/entire/1234567'', Hash ''eeee'')"
    and o1: "CommitObject repo_orphaned ''eeee'' = Inr orphaned"
    and p1: "ParseSession (Message orphaned) = Some ''2025-01-01-alpha''"
    by code_simp+
  have r2: "Reference repo_legacy (NewBranchReferenceName (shadow_branch_for base1)) True
     = Inr (''refs/heads/entire/1234567'', Hash ''ffff'')"
    and o2: "CommitObject repo_legacy ''ffff'' = Inr legacy"
    and p2: "ParseSession (Message legacy) = None"
    by code_simp+
  have ne: "''2025-01-01-alpha'' \<noteq> ''2025-01-01-beta''"
    by simp
  have o1': "CommitObject repo_orphaned (ref_hash (''refs/heads/entire/1234567'', Hash ''eeee''))
      = Inr orphaned"
    using o1 by simp
  have o2': "CommitObject repo_legacy (ref_hash (''refs/heads/entire/1234567'', Hash ''ffff''))
      = Inr legacy"
    using o2 by simp
  note other = session_conflict [OF r1 o1', of "''2025-01-01-alpha''" "''2025-01-01-beta''",
      THEN conjunct1, rule_format]
  note same = session_conflict [OF r1 o1', of _ "''2025-01-01-alpha''",
      THEN conjunct2, THEN conjunct1, rule_format, OF p1]
  note old = session_conflict [OF r2 o2', THEN conjunct2, THEN conjunct2, rule_format, OF p2]
  have a: "create_or_resume hash1 ([], repo_orphaned) base1 ''2025-01-01-beta'' ''manual-commit''
       = Inl ErrSessionIDConflict"
    using p1 ne by (intro other conjI)
  from r1 o1 p1 a same [of hash1 "[]" "''manual-commit''"] r2 o2 p2
    old [of hash1 "[]" "''2025-01-01-beta''" "''manual-commit''"]
  show ?thesis
    by (intro conjI)
qed

end
